theory Spec2Isabelle
  imports Complex_Main "HOL-Library.Multiset" "HOL-Library.Char_ord" "HOL-Library.List_Lexorder"
begin

section \<open>JavaScript values\<close>

text \<open>
  A JavaScript number is modelled as a real number, one of the two infinities, or NaN.
  Arithmetic on finite values is exact: the rounding and the overflow of binary64 and the
  sign of zero are left out. Division by zero, and every operation on NaN or an infinity,
  gives what JavaScript gives.
\<close>

datatype jsnum = Fin real | PInf | NInf | NaN

text \<open>
  What reading an element of a JSON array of numbers gives: the number, \<open>null\<close>, or
  \<open>undefined\<close> when the index is outside the array.
\<close>

datatype jsval = Undefined | Null | Num real

fun to_number :: "jsval \<Rightarrow> jsnum" where
  "to_number Undefined = NaN"
| "to_number Null = Fin 0"
| "to_number (Num r) = Fin r"

fun truthy :: "jsval \<Rightarrow> bool" where
  "truthy Undefined = False"
| "truthy Null = False"
| "truthy (Num r) = (r \<noteq> 0)"

text \<open>The operator \<open>a || b\<close>.\<close>

definition js_or :: "jsval \<Rightarrow> jsval \<Rightarrow> jsval" where
  "js_or a b = (if truthy a then a else b)"

fun js_add :: "jsnum \<Rightarrow> jsnum \<Rightarrow> jsnum" where
  "js_add NaN _ = NaN"
| "js_add _ NaN = NaN"
| "js_add (Fin a) (Fin b) = Fin (a + b)"
| "js_add PInf NInf = NaN"
| "js_add NInf PInf = NaN"
| "js_add PInf _ = PInf"
| "js_add NInf _ = NInf"
| "js_add (Fin a) x = x"

fun js_neg :: "jsnum \<Rightarrow> jsnum" where
  "js_neg (Fin a) = Fin (- a)"
| "js_neg PInf = NInf"
| "js_neg NInf = PInf"
| "js_neg NaN = NaN"

definition js_sub :: "jsnum \<Rightarrow> jsnum \<Rightarrow> jsnum" where
  "js_sub a b = js_add a (js_neg b)"

fun js_mul :: "jsnum \<Rightarrow> jsnum \<Rightarrow> jsnum" where
  "js_mul NaN _ = NaN"
| "js_mul _ NaN = NaN"
| "js_mul (Fin a) (Fin b) = Fin (a * b)"
| "js_mul (Fin a) PInf = (if a = 0 then NaN else if 0 < a then PInf else NInf)"
| "js_mul (Fin a) NInf = (if a = 0 then NaN else if 0 < a then NInf else PInf)"
| "js_mul PInf (Fin b) = (if b = 0 then NaN else if 0 < b then PInf else NInf)"
| "js_mul NInf (Fin b) = (if b = 0 then NaN else if 0 < b then NInf else PInf)"
| "js_mul PInf PInf = PInf"
| "js_mul NInf NInf = PInf"
| "js_mul PInf NInf = NInf"
| "js_mul NInf PInf = NInf"

fun js_div :: "jsnum \<Rightarrow> jsnum \<Rightarrow> jsnum" where
  "js_div NaN _ = NaN"
| "js_div _ NaN = NaN"
| "js_div (Fin a) (Fin b) =
     (if b = 0 then (if a = 0 then NaN else if 0 < a then PInf else NInf) else Fin (a / b))"
| "js_div (Fin a) _ = Fin 0"
| "js_div PInf (Fin b) = (if 0 \<le> b then PInf else NInf)"
| "js_div NInf (Fin b) = (if 0 \<le> b then NInf else PInf)"
| "js_div _ _ = NaN"

text \<open>The comparison \<open>a > b\<close>: false as soon as one side is NaN.\<close>

fun js_gt :: "jsnum \<Rightarrow> jsnum \<Rightarrow> bool" where
  "js_gt NaN _ = False"
| "js_gt _ NaN = False"
| "js_gt (Fin a) (Fin b) = (b < a)"
| "js_gt PInf PInf = False"
| "js_gt PInf _ = True"
| "js_gt NInf _ = False"
| "js_gt (Fin a) NInf = True"
| "js_gt (Fin a) PInf = False"

text \<open>The comparison \<open>a !== b\<close> of two numbers: NaN differs from everything, itself included.\<close>

definition js_strict_neq :: "jsnum \<Rightarrow> jsnum \<Rightarrow> bool" where
  "js_strict_neq a b = (a = NaN \<or> b = NaN \<or> a \<noteq> b)"

text \<open>
  \<open>parseFloat(x.toFixed(d))\<close>: the multiple of \<open>10^-d\<close> nearest to \<open>x\<close>, a tie going away
  from zero; NaN and the infinities print and parse back as themselves. (From \<open>10^21\<close> on
  \<open>toFixed\<close> prints the number itself; a binary64 number that large is an integer, on
  which the formula below is the identity.)

  The model rounds the exact value of its own arithmetic, the code the binary64 value it
  computed. Where the exact value is a tie, or within the binary64 error of one, the two
  can differ by one unit of the last place: for the closes 40000 and 40402 the exact
  change is 1.005 and the model gives 1.01, while the code holds 1.00499999999999989 and
  gives 1. So the theorems of the claims state a rounded value of the program by
  \<open>rounded_to\<close>, within half a unit of the last place, or at the ratio 1, which binary64
  holds exactly; and the examples are evaluated at values far from a tie, where the model
  and the code agree.
\<close>

fun parseFloat_toFixed :: "nat \<Rightarrow> jsnum \<Rightarrow> jsnum" where
  "parseFloat_toFixed d (Fin r) = Fin (sgn r * of_int \<lfloor>\<bar>r\<bar> * 10 ^ d + 1 / 2\<rfloor> / 10 ^ d)"
| "parseFloat_toFixed d x = x"

text \<open>\<open>Math.round\<close>: the nearest integer, a tie going up.\<close>

fun Math_round :: "jsnum \<Rightarrow> jsnum" where
  "Math_round (Fin r) = Fin (of_int \<lfloor>r + 1 / 2\<rfloor>)"
| "Math_round x = x"

text \<open>\<open>xs[i]\<close> on an array of numbers and nulls.\<close>

definition js_index :: "real option list \<Rightarrow> int \<Rightarrow> jsval" where
  "js_index xs i =
     (if 0 \<le> i \<and> i < int (length xs)
      then (case xs ! nat i of None \<Rightarrow> Null | Some r \<Rightarrow> Num r)
      else Undefined)"

text \<open>\<open>xs.slice(start, stop)\<close>, negative arguments counting from the end.\<close>

definition js_slice :: "'a list \<Rightarrow> int \<Rightarrow> int \<Rightarrow> 'a list" where
  "js_slice xs start stop =
     (let len = int (length xs);
          k = (if start < 0 then max (len + start) 0 else min start len);
          final = (if stop < 0 then max (len + stop) 0 else min stop len)
      in take (nat (final - k)) (drop (nat k) xs))"

text \<open>\<open>xs.findIndex(P)\<close>: the first index whose element satisfies \<open>P\<close>, or \<open>-1\<close>.\<close>

fun findIndex :: "('a \<Rightarrow> bool) \<Rightarrow> 'a list \<Rightarrow> int" where
  "findIndex P [] = - 1"
| "findIndex P (x # xs) =
     (if P x then 0 else (let i = findIndex P xs in if i = - 1 then - 1 else i + 1))"

section \<open>The quote fetcher: \<open>getStockDataAPI\<close>\<close>

text \<open>
  The three parallel arrays read out of the chart payload, and what the function returns.
\<close>

record series =
  timestamps :: "int list"
  volumes :: "real option list"
  closes :: "real option list"

record stock =
  symbol :: string
  currentVolume :: jsnum
  avgVolume :: jsnum
  vlRatio :: jsnum
  price :: jsval
  priceChange :: jsnum
  timestamp :: jsnum
  date :: string

text \<open>
  The world outside the program: \<open>http\<close> is the GET request for one symbol together with
  the destructuring of its payload (\<open>None\<close> when either throws), \<open>toDateString\<close> gives the
  local calendar day of an epoch time in seconds, \<open>parseDate\<close> the local calendar day of
  the request's date string, and \<open>launch_ok\<close> says whether launching the browser succeeds.
\<close>

record env =
  http :: "string \<Rightarrow> series option"
  toDateString :: "int \<Rightarrow> string"
  parseDate :: "string \<Rightarrow> string"
  launch_ok :: bool

text \<open>Lines 90 to 98: the last index, or the first index on the requested day.\<close>

definition resolve_targetIndex :: "env \<Rightarrow> string option \<Rightarrow> int list \<Rightarrow> int" where
  "resolve_targetIndex e d ts =
     (let lastIndex = int (length ts) - 1 in
      case d of
        None \<Rightarrow> lastIndex
      | Some s \<Rightarrow>
          if s = [] then lastIndex
          else (let i = findIndex (\<lambda>t. toDateString e t = parseDate e s) ts
                in if i = - 1 then lastIndex else i))"

text \<open>Lines 101 to 104: the mean of the non-null volumes of the last ten sessions.\<close>

definition calc_avgVolume :: "real option list \<Rightarrow> int \<Rightarrow> jsnum" where
  "calc_avgVolume vols targetIndex =
     (let start = max 0 (targetIndex - 9);
          volumeSlice = filter (\<lambda>v. v \<noteq> None) (js_slice vols start (targetIndex + 1))
      in if 0 < length volumeSlice
         then js_div
                (foldl (\<lambda>sum vol. js_add sum (case vol of None \<Rightarrow> Fin 0 | Some r \<Rightarrow> Fin r))
                   (Fin 0) volumeSlice)
                (Fin (real (length volumeSlice)))
         else Fin 0)"

text \<open>Line 106.\<close>

definition calc_currentVolume :: "real option list \<Rightarrow> int \<Rightarrow> jsnum" where
  "calc_currentVolume vols targetIndex = to_number (js_or (js_index vols targetIndex) (Num 0))"

text \<open>Line 107.\<close>

definition calc_vlRatio :: "real option list \<Rightarrow> int \<Rightarrow> jsnum" where
  "calc_vlRatio vols targetIndex =
     (let avg = calc_avgVolume vols targetIndex in
      if js_gt avg (Fin 0) then js_div (calc_currentVolume vols targetIndex) avg else Fin 0)"

text \<open>Lines 110 to 112.\<close>

definition calc_priceChange :: "real option list \<Rightarrow> int \<Rightarrow> jsnum" where
  "calc_priceChange cls targetIndex =
     (let currentPrice = js_index cls targetIndex;
          previousPrice = js_or (js_index cls (targetIndex - 1)) currentPrice
      in if js_gt (to_number previousPrice) (Fin 0)
         then js_mul
                (js_div (js_sub (to_number currentPrice) (to_number previousPrice))
                   (to_number previousPrice))
                (Fin 100)
         else Fin 0)"

text \<open>Lines 114 to 123: the returned object.\<close>

definition stockData :: "env \<Rightarrow> string \<Rightarrow> string option \<Rightarrow> series \<Rightarrow> stock" where
  "stockData e name d s =
     (let targetIndex = resolve_targetIndex e d (timestamps s) in
      \<lparr> symbol = name,
        currentVolume = calc_currentVolume (volumes s) targetIndex,
        avgVolume = calc_avgVolume (volumes s) targetIndex,
        vlRatio = calc_vlRatio (volumes s) targetIndex,
        price = js_index (closes s) targetIndex,
        priceChange = parseFloat_toFixed 2 (calc_priceChange (closes s) targetIndex),
        timestamp =
          (if 0 \<le> targetIndex \<and> targetIndex < int (length (timestamps s))
           then Fin (real_of_int (timestamps s ! nat targetIndex * 1000)) else NaN),
        date =
          (if 0 \<le> targetIndex \<and> targetIndex < int (length (timestamps s))
           then toDateString e (timestamps s ! nat targetIndex) else ''Invalid Date'') \<rparr>)"

text \<open>The whole function: \<open>null\<close> when the request or the payload fails.\<close>

definition getStockDataAPI :: "env \<Rightarrow> string \<Rightarrow> string option \<Rightarrow> stock option" where
  "getStockDataAPI e name d = map_option (stockData e name d) (http e name)"

section \<open>The request handler: \<open>POST /api/analyze\<close>\<close>

text \<open>
  The \<open>symbols\<close> field of the request body: absent, a value that is not an array, or an
  array of strings. The \<open>date\<close> field is absent (or null) or a string.
\<close>

datatype symbols_field = SymMissing | SymNotArray | SymArray "string list"

record request =
  symbols :: symbols_field
  date :: "string option"

record comparison =
  ratio :: jsnum
  status :: string

text \<open>
  One element of \<open>data\<close>. The object \<open>comparisons\<close> is the list of its keys with their
  values, in the order of the object literal.
\<close>

record analysis =
  symbol :: string
  vlRatio :: jsnum
  currentVolume :: jsnum
  avgVolume :: jsnum
  price :: jsval
  priceChange :: jsnum
  date :: string
  comparisons :: "(string \<times> comparison) list"

text \<open>
  The reply: an error status with its message, or the success body with \<open>data\<close> and
  \<open>requestDate\<close> (the time of the reply is left out).
\<close>

datatype response = Error nat string | Success "analysis list" string

text \<open>
  What one call of the handler does: its reply, the symbols it sent a request for, in
  order, and whether the browser is launched afterwards.
\<close>

record outcome =
  response :: response
  fetched :: "string list"
  browser :: bool

definition benchmarks :: "string list" where
  "benchmarks = [''QQQ'', ''SPY'', ''IWM'']"

text \<open>\<open>[...new Set(xs)]\<close>: each element once, in the order of first occurrence.\<close>

definition uniq :: "string list \<Rightarrow> string list" where
  "uniq xs = foldl (\<lambda>acc x. if x \<in> set acc then acc else acc @ [x]) [] xs"

text \<open>
  Lines 180 to 182, once for each benchmark: \<open>bench\<close> is what \<open>find\<close> returned.
\<close>

definition compareTo :: "stock option \<Rightarrow> stock \<Rightarrow> jsnum" where
  "compareTo bench st =
     (case bench of
        None \<Rightarrow> Fin 1
      | Some b \<Rightarrow>
          if js_strict_neq (stock.priceChange b) (Fin 0)
          then js_div (stock.priceChange st) (stock.priceChange b)
          else Fin 1)"

text \<open>Lines 193 to 204, once for each benchmark.\<close>

definition comparison_of :: "jsnum \<Rightarrow> comparison" where
  "comparison_of c =
     \<lparr> ratio = parseFloat_toFixed 3 c,
       status = (if js_gt c (Fin 1) then ''stronger'' else ''weaker'') \<rparr>"

text \<open>Lines 179 to 207: the function mapped over the valid results.\<close>

definition analysisResult ::
  "stock option \<Rightarrow> stock option \<Rightarrow> stock option \<Rightarrow> stock \<Rightarrow> analysis" where
  "analysisResult qqq spy iwm st =
     (let compareToQQQ = compareTo qqq st;
          compareToSPY = compareTo spy st;
          compareToIWM = compareTo iwm st
      in \<lparr> symbol = stock.symbol st,
           vlRatio = parseFloat_toFixed 3 (stock.vlRatio st),
           currentVolume = stock.currentVolume st,
           avgVolume = Math_round (stock.avgVolume st),
           price = stock.price st,
           priceChange = stock.priceChange st,
           date = stock.date st,
           comparisons =
             [(''vs_QQQ'', comparison_of compareToQQQ),
              (''vs_SPY'', comparison_of compareToSPY),
              (''vs_IWM'', comparison_of compareToIWM)] \<rparr>)"

text \<open>Lines 163 to 167: the results of the fetches that are not null.\<close>

definition validResults :: "env \<Rightarrow> string option \<Rightarrow> string list \<Rightarrow> stock list" where
  "validResults e d allSymbols = List.map_filter (\<lambda>name. getStockDataAPI e name d) allSymbols"

text \<open>Lines 174 to 207.\<close>

definition analysisResults :: "stock list \<Rightarrow> analysis list" where
  "analysisResults vr =
     (let qqq = find (\<lambda>r. stock.symbol r = ''QQQ'') vr;
          spy = find (\<lambda>r. stock.symbol r = ''SPY'') vr;
          iwm = find (\<lambda>r. stock.symbol r = ''IWM'') vr
      in map (analysisResult qqq spy iwm) vr)"

text \<open>
  The handler, lines 143 to 220. A failed launch of the browser is the one exception the
  body can raise; the \<open>catch\<close> turns it into the reply 500.
\<close>

definition analyze :: "env \<Rightarrow> bool \<Rightarrow> request \<Rightarrow> outcome" where
  "analyze e launched req =
     (case symbols req of
        SymArray syms \<Rightarrow>
          (let allSymbols = uniq (benchmarks @ syms) in
           if \<not> launched \<and> \<not> launch_ok e
           then \<lparr> response = Error 500 ''Internal server error'', fetched = [],
                  browser = False \<rparr>
           else
             (let vr = validResults e (request.date req) allSymbols in
              if length vr = 0
              then \<lparr> response = Error 500 ''Failed to fetch data for any symbols'',
                     fetched = allSymbols, browser = True \<rparr>
              else \<lparr> response =
                       Success (analysisResults vr)
                         (case request.date req of
                            None \<Rightarrow> ''latest''
                          | Some s \<Rightarrow> if s = [] then ''latest'' else s),
                     fetched = allSymbols, browser = True \<rparr>))
      | _ \<Rightarrow>
          \<lparr> response = Error 400 ''Symbols array is required'', fetched = [],
            browser = launched \<rparr>)"

section \<open>The display sort: \<open>sortData\<close>\<close>

text \<open>
  A row of the table is one element of \<open>data\<close> as the browser parsed it from JSON: every
  number is a finite number or \<open>null\<close>.
\<close>

record comparison_json =
  ratio :: "real option"
  status :: string

record comparisons_json =
  vs_QQQ :: comparison_json
  vs_SPY :: comparison_json
  vs_IWM :: comparison_json

record row =
  symbol :: string
  vlRatio :: "real option"
  currentVolume :: "real option"
  avgVolume :: "real option"
  price :: "real option"
  priceChange :: "real option"
  date :: string
  comparisons :: comparisons_json

text \<open>
  \<open>xs.sort(c)\<close>. The sort of the language is stable, and for a consistent comparator
  its result is the one stable sorted permutation, which insertion from the right
  computes; a comparator result of NaN counts as 0, and the comparators below never give
  one. For a comparator that is not consistent the language leaves the order open.
\<close>

fun insert_sorted :: "('a \<Rightarrow> 'a \<Rightarrow> real) \<Rightarrow> 'a \<Rightarrow> 'a list \<Rightarrow> 'a list" where
  "insert_sorted c x [] = [x]"
| "insert_sorted c x (y # ys) = (if c x y \<le> 0 then x # y # ys else y # insert_sorted c x ys)"

definition js_sort :: "('a \<Rightarrow> 'a \<Rightarrow> real) \<Rightarrow> 'a list \<Rightarrow> 'a list" where
  "js_sort c xs = foldr (insert_sorted c) xs []"

text \<open>\<open>xs.indexOf(x)\<close>.\<close>

definition indexOf :: "'a list \<Rightarrow> 'a \<Rightarrow> int" where
  "indexOf xs x = findIndex (\<lambda>y. y = x) xs"

text \<open>\<open>v || 0\<close> on a number or null.\<close>

definition or_zero :: "real option \<Rightarrow> real option" where
  "or_zero v = (case v of None \<Rightarrow> Some 0 | Some r \<Rightarrow> Some r)"

text \<open>
  The value the \<open>switch\<close> of the comparator picks for a column: a string, or a number or
  null; \<open>None\<close> is the \<open>default\<close> branch.
\<close>

datatype cell = Str string | Number "real option"

definition column_value :: "string \<Rightarrow> row \<Rightarrow> cell option" where
  "column_value column a =
     (if column = ''symbol'' then Some (Str (row.symbol a))
      else if column = ''priceChange'' then Some (Number (or_zero (row.priceChange a)))
      else if column = ''vlRatio'' then Some (Number (row.vlRatio a))
      else if column = ''vsQQQ''
        then Some (Number (comparison_json.ratio (vs_QQQ (row.comparisons a))))
      else if column = ''vsSPY''
        then Some (Number (comparison_json.ratio (vs_SPY (row.comparisons a))))
      else if column = ''vsIWM''
        then Some (Number (comparison_json.ratio (vs_IWM (row.comparisons a))))
      else if column = ''price'' then Some (Number (or_zero (row.price a)))
      else if column = ''volume'' then Some (Number (row.currentVolume a))
      else None)"

text \<open>
  \<open>x.localeCompare(y)\<close> on two strings, \<open>x - y\<close> otherwise (null counts as 0). The two
  values of one comparison come from the same column, so they are of the same kind.
\<close>

fun cell_compare :: "(string \<Rightarrow> string \<Rightarrow> int) \<Rightarrow> cell \<Rightarrow> cell \<Rightarrow> real" where
  "cell_compare localeCompare (Str x) (Str y) = real_of_int (localeCompare x y)"
| "cell_compare localeCompare (Number x) (Number y) =
     (case x of None \<Rightarrow> 0 | Some r \<Rightarrow> r) - (case y of None \<Rightarrow> 0 | Some r \<Rightarrow> r)"
| "cell_compare localeCompare _ _ = 0"

text \<open>The comparator of lines 353 to 402; the collation of the locale is a parameter.\<close>

definition compare_rows ::
  "(string \<Rightarrow> string \<Rightarrow> int) \<Rightarrow> string \<Rightarrow> string \<Rightarrow> row \<Rightarrow> row \<Rightarrow> real" where
  "compare_rows localeCompare column direction a b =
     (case (column_value column a, column_value column b) of
        (Some aValue, Some bValue) \<Rightarrow>
          if direction = ''asc'' then cell_compare localeCompare aValue bValue
          else cell_compare localeCompare bValue aValue
      | _ \<Rightarrow> 0)"

definition sortData ::
  "(string \<Rightarrow> string \<Rightarrow> int) \<Rightarrow> row list \<Rightarrow> string \<Rightarrow> string \<Rightarrow> row list" where
  "sortData localeCompare data column direction =
     (let benchmarkRows = filter (\<lambda>st. row.symbol st \<in> set benchmarks) data;
          regularStocks = filter (\<lambda>st. row.symbol st \<notin> set benchmarks) data;
          sortedBenchmarks =
            js_sort
              (\<lambda>a b. real_of_int
                 (indexOf benchmarks (row.symbol a) - indexOf benchmarks (row.symbol b)))
              benchmarkRows;
          sortedRegularStocks = js_sort (compare_rows localeCompare column direction) regularStocks
      in sortedBenchmarks @ sortedRegularStocks)"

section \<open>What the specification says of the volumes\<close>

text \<open>
  The window of indices from \<open>max 0 (i - 9)\<close> to \<open>i\<close>, both included, its volumes that are
  not null, and their arithmetic mean.
\<close>

definition window_volumes :: "real option list \<Rightarrow> nat \<Rightarrow> real option list" where
  "window_volumes vols i = map (\<lambda>j. vols ! j) [i - 9 ..< Suc i]"

definition non_null :: "real option list \<Rightarrow> real list" where
  "non_null xs = concat (map (\<lambda>v. case v of None \<Rightarrow> [] | Some r \<Rightarrow> [r]) xs)"

definition mean :: "real list \<Rightarrow> real" where
  "mean xs = sum_list xs / real (length xs)"

text \<open>A well-formed volume array: no volume is negative (all are finite by their type).\<close>

definition volumes_well_formed :: "real option list \<Rightarrow> bool" where
  "volumes_well_formed vols = list_all (\<lambda>v. case v of None \<Rightarrow> True | Some r \<Rightarrow> 0 \<le> r) vols"

section \<open>What the claims say of the price change\<close>


section \<open>What the specification says of the comparisons\<close>

text \<open>
  The ratio of a symbol's price change to a benchmark's: their quotient when the
  benchmark's change is not 0, and 1 otherwise.
\<close>

definition spec_ratio :: "jsnum \<Rightarrow> jsnum \<Rightarrow> jsnum" where
  "spec_ratio s b = (if js_strict_neq b (Fin 0) then js_div s b else Fin 1)"

text \<open>
  \<open>y\<close> is \<open>x\<close> rounded to \<open>d\<close> decimal places: a multiple of \<open>10^-d\<close> at most half a unit
  of the last place away from \<open>x\<close>; NaN and the infinities round to themselves.
\<close>

fun rounded_to :: "nat \<Rightarrow> jsnum \<Rightarrow> jsnum \<Rightarrow> bool" where
  "rounded_to d (Fin a) (Fin b) =
     (real_of_int \<lfloor>b * 10 ^ d\<rfloor> = b * 10 ^ d \<and> \<bar>b - a\<bar> \<le> 1 / (2 * 10 ^ d))"
| "rounded_to d (Fin a) y = False"
| "rounded_to d x y = (y = x)"

section \<open>What the specification says of the display sort\<close>

text \<open>
  The columns of the table that hold numbers, each with the field of the row it shows
  (\<open>sortTable\<close>, line 306, and the cells of \<open>createTableRow\<close>); the first column holds
  the symbol.
\<close>

definition numeric_columns :: "(string \<times> (row \<Rightarrow> real option)) list" where
  "numeric_columns =
     [(''priceChange'', row.priceChange),
      (''vlRatio'', row.vlRatio),
      (''vsQQQ'', \<lambda>r. comparison_json.ratio (vs_QQQ (row.comparisons r))),
      (''vsSPY'', \<lambda>r. comparison_json.ratio (vs_SPY (row.comparisons r))),
      (''vsIWM'', \<lambda>r. comparison_json.ratio (vs_IWM (row.comparisons r))),
      (''price'', row.price),
      (''volume'', row.currentVolume)]"

text \<open>A number of the table read as a key: null counts as 0.\<close>

definition number_of :: "real option \<Rightarrow> real" where
  "number_of v = (case v of None \<Rightarrow> 0 | Some x \<Rightarrow> x)"

text \<open>The key of a row in a numeric column; 0 for a name that is no numeric column.\<close>

definition column_number :: "string \<Rightarrow> row \<Rightarrow> real" where
  "column_number column r =
     (case map_of numeric_columns column of None \<Rightarrow> 0 | Some field \<Rightarrow> number_of (field r))"

text \<open>
  The rows are sorted by a column in a direction: down the list the symbols never come
  earlier in the collation (ascending) or never later (descending); the numbers of a
  numeric column never decrease (ascending) or never increase (descending). A direction
  other than \<open>asc\<close> is descending. A name that is no column of the table orders nothing.
\<close>

definition sorted_by_column ::
  "(string \<Rightarrow> string \<Rightarrow> int) \<Rightarrow> string \<Rightarrow> string \<Rightarrow> row list \<Rightarrow> bool" where
  "sorted_by_column localeCompare column direction rows =
     (if column = ''symbol''
      then sorted_wrt
             (\<lambda>a b. if direction = ''asc'' then localeCompare (row.symbol a) (row.symbol b) \<le> 0
                    else 0 \<le> localeCompare (row.symbol a) (row.symbol b)) rows
      else (case map_of numeric_columns column of
              None \<Rightarrow> True
            | Some field \<Rightarrow>
                sorted_wrt
                  (\<lambda>a b. if direction = ''asc'' then number_of (field a) \<le> number_of (field b)
                         else number_of (field b) \<le> number_of (field a)) rows))"

text \<open>The benchmark rows in the fixed order: those of QQQ, then of SPY, then of IWM.\<close>

definition benchmark_rows :: "row list \<Rightarrow> row list" where
  "benchmark_rows data =
     filter (\<lambda>r. row.symbol r = ''QQQ'') data @ filter (\<lambda>r. row.symbol r = ''SPY'') data @
     filter (\<lambda>r. row.symbol r = ''IWM'') data"

text \<open>
  A consistent collation: the signs of \<open>x.localeCompare(y)\<close> and \<open>y.localeCompare(x)\<close> are
  opposite, and "not after" is transitive.
\<close>

definition comparator_consistent :: "(string \<Rightarrow> string \<Rightarrow> int) \<Rightarrow> bool" where
  "comparator_consistent localeCompare =
     ((\<forall>x y. (localeCompare x y < 0) = (0 < localeCompare y x)) \<and>
      (\<forall>x y z. localeCompare x y \<le> 0 \<and> localeCompare y z \<le> 0 \<longrightarrow> localeCompare x z \<le> 0))"

text \<open>
  The keys of the rows in a column are pairwise distinct, as the claim words it: no two
  rows hold the same symbol, or the same value in the numeric column. A name that is no
  column of the table gives every row the same, absent key.
\<close>

definition claimed_keys_distinct :: "string \<Rightarrow> row list \<Rightarrow> bool" where
  "claimed_keys_distinct column rows =
     (if column = ''symbol'' then distinct (map row.symbol rows)
      else (case map_of numeric_columns column of
              None \<Rightarrow> length rows \<le> 1
            | Some field \<Rightarrow> distinct (map field rows)))"

text \<open>
  The same with the keys read as the sort reads them: a null number counts as 0, and two
  symbols are different keys when the collation does not rank them equal.
\<close>

definition keys_distinct :: "(string \<Rightarrow> string \<Rightarrow> int) \<Rightarrow> string \<Rightarrow> row list \<Rightarrow> bool" where
  "keys_distinct localeCompare column rows =
     (if column = ''symbol''
      then distinct (map row.symbol rows) \<and>
           (\<forall>x \<in> set (map row.symbol rows). \<forall>y \<in> set (map row.symbol rows).
              x \<noteq> y \<longrightarrow> localeCompare x y \<noteq> 0)
      else (case map_of numeric_columns column of
              None \<Rightarrow> length rows \<le> 1
            | Some field \<Rightarrow> distinct (map (\<lambda>r. number_of (field r)) rows)))"

section \<open>Examples\<close>

text \<open>The two sessions of the scenario of the specification, and two more series.\<close>

definition two_day_series :: series where
  "two_day_series =
     \<lparr> timestamps = [1700000000, 1700086400],
       volumes = [Some 1000, Some 3000],
       closes = [Some 100, Some 110] \<rparr>"


definition flat_series :: series where
  "flat_series =
     \<lparr> timestamps = [1700000000, 1700086400],
       volumes = [Some 500, None],
       closes = [Some 50, Some 50] \<rparr>"

definition rising_series :: series where
  "rising_series =
     \<lparr> timestamps = [1700000000, 1700086400],
       volumes = [Some 1000, Some 2001],
       closes = [Some 30, Some 37] \<rparr>"

text \<open>
  An environment in which QQQ rose by ten percent, SPY did not move, the request for IWM
  fails and every other symbol rose by a little over twenty-three percent.
\<close>

definition demo_env :: env where
  "demo_env =
     \<lparr> http = (\<lambda>name. if name = ''QQQ'' then Some two_day_series
                       else if name = ''SPY'' then Some flat_series
                       else if name = ''IWM'' then None
                       else Some rising_series),
       toDateString = (\<lambda>t. if t < 1700086400 then ''Tue Nov 14 2023'' else ''Wed Nov 15 2023''),
       parseDate = (\<lambda>s. if s = ''2023-11-14'' then ''Tue Nov 14 2023'' else ''Wed Nov 15 2023''),
       launch_ok = True \<rparr>"

text \<open>
  An environment in which QQQ doubled, every other symbol but SPY and IWM rose by 100.04
  percent, and the requests for SPY and IWM fail.
\<close>

definition doubled_series :: series where
  "doubled_series =
     \<lparr> timestamps = [1700000000, 1700086400],
       volumes = [Some 1000, Some 1000],
       closes = [Some 100, Some 200] \<rparr>"

definition doubled_plus_series :: series where
  "doubled_plus_series =
     \<lparr> timestamps = [1700000000, 1700086400],
       volumes = [Some 1000, Some 1000],
       closes = [Some 100, Some 200.04] \<rparr>"

definition doubling_env :: env where
  "doubling_env =
     \<lparr> http = (\<lambda>name. if name = ''QQQ'' then Some doubled_series
                       else if name = ''SPY'' \<or> name = ''IWM'' then None
                       else Some doubled_plus_series),
       toDateString = (\<lambda>t. if t < 1700086400 then ''Tue Nov 14 2023'' else ''Wed Nov 15 2023''),
       parseDate = (\<lambda>s. if s = ''2023-11-14'' then ''Tue Nov 14 2023'' else ''Wed Nov 15 2023''),
       launch_ok = True \<rparr>"

text \<open>
  An environment in which the payload for QQQ has three timestamps and three volumes but
  two closes, and every other request fails.
\<close>

definition short_series :: series where
  "short_series =
     \<lparr> timestamps = [1700000000, 1700086400, 1700172800],
       volumes = [Some 1000, Some 1000, Some 1000],
       closes = [Some 8, Some 4] \<rparr>"

definition short_env :: env where
  "short_env =
     \<lparr> http = (\<lambda>name. if name = ''QQQ'' then Some short_series else None),
       toDateString = (\<lambda>t. if t < 1700172800 then ''Wed Nov 15 2023'' else ''Thu Nov 16 2023''),
       parseDate = (\<lambda>s. ''Thu Nov 16 2023''),
       launch_ok = True \<rparr>"

definition demo_request :: request where
  "demo_request = \<lparr> symbols = SymArray [''AAPL''], date = None \<rparr>"

definition empty_request :: request where
  "empty_request = \<lparr> symbols = SymArray [], date = None \<rparr>"

definition missing_request :: request where
  "missing_request = \<lparr> symbols = SymMissing, date = None \<rparr>"

text \<open>What the handler replies to \<open>demo_request\<close> in \<open>demo_env\<close>.\<close>

definition demo_data :: "analysis list" where
  "demo_data =
     [\<lparr> analysis.symbol = ''QQQ'', vlRatio = Fin (3 / 2), currentVolume = Fin 3000,
        avgVolume = Fin 2000, price = Num 110, priceChange = Fin 10,
        date = ''Wed Nov 15 2023'',
        comparisons =
          [(''vs_QQQ'', \<lparr> comparison.ratio = Fin 1, status = ''weaker'' \<rparr>),
           (''vs_SPY'', \<lparr> comparison.ratio = Fin 1, status = ''weaker'' \<rparr>),
           (''vs_IWM'', \<lparr> comparison.ratio = Fin 1, status = ''weaker'' \<rparr>)] \<rparr>,
      \<lparr> analysis.symbol = ''SPY'', vlRatio = Fin 0, currentVolume = Fin 0,
        avgVolume = Fin 500, price = Num 50, priceChange = Fin 0,
        date = ''Wed Nov 15 2023'',
        comparisons =
          [(''vs_QQQ'', \<lparr> comparison.ratio = Fin 0, status = ''weaker'' \<rparr>),
           (''vs_SPY'', \<lparr> comparison.ratio = Fin 1, status = ''weaker'' \<rparr>),
           (''vs_IWM'', \<lparr> comparison.ratio = Fin 1, status = ''weaker'' \<rparr>)] \<rparr>,
      \<lparr> analysis.symbol = ''AAPL'', vlRatio = Fin (1334 / 1000), currentVolume = Fin 2001,
        avgVolume = Fin 1501, price = Num 37, priceChange = Fin (2333 / 100),
        date = ''Wed Nov 15 2023'',
        comparisons =
          [(''vs_QQQ'', \<lparr> comparison.ratio = Fin (2333 / 1000), status = ''stronger'' \<rparr>),
           (''vs_SPY'', \<lparr> comparison.ratio = Fin 1, status = ''weaker'' \<rparr>),
           (''vs_IWM'', \<lparr> comparison.ratio = Fin 1, status = ''weaker'' \<rparr>)] \<rparr>]"

text \<open>What the handler replies to \<open>demo_request\<close> in \<open>doubling_env\<close>.\<close>

definition doubling_data :: "analysis list" where
  "doubling_data =
     [\<lparr> analysis.symbol = ''QQQ'', vlRatio = Fin 1, currentVolume = Fin 1000,
        avgVolume = Fin 1000, price = Num 200, priceChange = Fin 100,
        date = ''Wed Nov 15 2023'',
        comparisons =
          [(''vs_QQQ'', \<lparr> comparison.ratio = Fin 1, status = ''weaker'' \<rparr>),
           (''vs_SPY'', \<lparr> comparison.ratio = Fin 1, status = ''weaker'' \<rparr>),
           (''vs_IWM'', \<lparr> comparison.ratio = Fin 1, status = ''weaker'' \<rparr>)] \<rparr>,
      \<lparr> analysis.symbol = ''AAPL'', vlRatio = Fin 1, currentVolume = Fin 1000,
        avgVolume = Fin 1000, price = Num (20004 / 100), priceChange = Fin (10004 / 100),
        date = ''Wed Nov 15 2023'',
        comparisons =
          [(''vs_QQQ'', \<lparr> comparison.ratio = Fin 1, status = ''stronger'' \<rparr>),
           (''vs_SPY'', \<lparr> comparison.ratio = Fin 1, status = ''weaker'' \<rparr>),
           (''vs_IWM'', \<lparr> comparison.ratio = Fin 1, status = ''weaker'' \<rparr>)] \<rparr>]"

text \<open>What the handler replies to \<open>empty_request\<close> in \<open>short_env\<close>.\<close>

definition short_data :: "analysis list" where
  "short_data =
     [\<lparr> analysis.symbol = ''QQQ'', vlRatio = Fin 1, currentVolume = Fin 1000,
        avgVolume = Fin 1000, price = Undefined, priceChange = NaN,
        date = ''Thu Nov 16 2023'',
        comparisons =
          [(''vs_QQQ'', \<lparr> comparison.ratio = NaN, status = ''weaker'' \<rparr>),
           (''vs_SPY'', \<lparr> comparison.ratio = Fin 1, status = ''weaker'' \<rparr>),
           (''vs_IWM'', \<lparr> comparison.ratio = Fin 1, status = ''weaker'' \<rparr>)] \<rparr>]"

text \<open>A collation to run the sort with: the order of the character codes.\<close>

definition code_unit_compare :: "string \<Rightarrow> string \<Rightarrow> int" where
  "code_unit_compare x y = (if x < y then - 1 else if x = y then 0 else 1)"

text \<open>Rows of the table that differ in symbol, price change and volume ratio.\<close>

definition mk_row :: "string \<Rightarrow> real \<Rightarrow> real \<Rightarrow> row" where
  "mk_row name change vl =
     \<lparr> row.symbol = name, vlRatio = Some vl, currentVolume = Some 1000, avgVolume = Some 1000,
       price = Some 10, priceChange = Some change, date = ''Wed Nov 15 2023'',
       comparisons =
         \<lparr> vs_QQQ = \<lparr> comparison_json.ratio = Some 1, status = ''weaker'' \<rparr>,
           vs_SPY = \<lparr> comparison_json.ratio = Some 1, status = ''weaker'' \<rparr>,
           vs_IWM = \<lparr> comparison_json.ratio = Some 1, status = ''weaker'' \<rparr> \<rparr> \<rparr>"

definition demo_rows :: "row list" where
  "demo_rows =
     [mk_row ''MSFT'' 2 1.5, mk_row ''SPY'' 0 1, mk_row ''AAPL'' (- 1) 3,
      mk_row ''QQQ'' 10 2, mk_row ''TSLA'' 5 0.5]"

text \<open>The rows of \<open>demo_rows\<close> that are not benchmarks.\<close>

definition regular_rows :: "row list" where
  "regular_rows = [mk_row ''MSFT'' 2 1.5, mk_row ''AAPL'' (- 1) 3, mk_row ''TSLA'' 5 0.5]"

text \<open>
  Two rows that are not benchmarks: the price change of the first is null, that of the
  second is 0.
\<close>

definition null_and_zero_rows :: "row list" where
  "null_and_zero_rows =
     [(mk_row ''NVDA'' 0 2) \<lparr> row.priceChange := None \<rparr>, mk_row ''AMD'' 0 1]"

section \<open>The resolved index\<close>

lemma findIndex_range: "findIndex P xs = - 1 \<or> (0 \<le> findIndex P xs \<and> findIndex P xs < int (length xs))"
  by (induction xs) (auto simp: Let_def)

lemma resolve_targetIndex_range:
  assumes "ts \<noteq> []"
  shows "0 \<le> resolve_targetIndex e d ts \<and> resolve_targetIndex e d ts < int (length ts)"
proof -
  have len: "0 < length ts" using assms by simp
  show ?thesis
    using findIndex_range [of "\<lambda>t. toDateString e t = parseDate e (the d)" ts] len
    by (auto simp: resolve_targetIndex_def Let_def split: option.splits)
qed

section \<open>The volume window\<close>

lemma take_drop_map_nth:
  assumes "a \<le> b" and "b \<le> length xs"
  shows "take (b - a) (drop a xs) = map ((!) xs) [a..<b]"
proof (rule nth_equalityI)
  show "length (take (b - a) (drop a xs)) = length (map ((!) xs) [a..<b])"
    using assms by simp
next
  fix j assume "j < length (take (b - a) (drop a xs))"
  then show "take (b - a) (drop a xs) ! j = map ((!) xs) [a..<b] ! j"
    using assms by (simp add: nth_map_upt)
qed

lemma slice_window:
  assumes "i < length vols"
  shows "js_slice vols (max 0 (int i - 9)) (int i + 1) = window_volumes vols i"
proof -
  have s: "nat (int i + 1) = Suc i" by linarith
  have "js_slice vols (max 0 (int i - 9)) (int i + 1) = take (Suc i - (i - 9)) (drop (i - 9) vols)"
    using assms by (auto simp: js_slice_def Let_def min_def max_def nat_diff_distrib' s)
  also have "\<dots> = map ((!) vols) [i - 9 ..< Suc i]"
    using assms by (intro take_drop_map_nth) simp_all
  finally show ?thesis by (simp add: window_volumes_def)
qed

lemma length_window: "length (window_volumes vols i) = min 10 (i + 1)"
  by (auto simp: window_volumes_def)

lemma length_filter_non_null: "length (filter (\<lambda>v. v \<noteq> None) xs) = length (non_null xs)"
  by (induction xs) (auto simp: non_null_def split: option.splits)

lemma foldl_js_add_non_null:
  "foldl (\<lambda>sum vol. js_add sum (case vol of None \<Rightarrow> Fin 0 | Some r \<Rightarrow> Fin r)) (Fin a)
     (filter (\<lambda>v. v \<noteq> None) xs) = Fin (a + sum_list (non_null xs))"
  by (induction xs arbitrary: a) (auto simp: non_null_def split: option.splits)

lemma calc_avgVolume_mean:
  assumes "i < length vols"
  shows "calc_avgVolume vols (int i) =
           (if non_null (window_volumes vols i) = [] then Fin 0
            else Fin (mean (non_null (window_volumes vols i))))"
proof -
  define w where "w = window_volumes vols i"
  define fs where "fs = filter (\<lambda>v. v \<noteq> None) w"
  have avg: "calc_avgVolume vols (int i) =
      (if 0 < length fs
       then js_div (foldl (\<lambda>sum vol. js_add sum (case vol of None \<Rightarrow> Fin 0 | Some r \<Rightarrow> Fin r))
                      (Fin 0) fs) (Fin (real (length fs)))
       else Fin 0)"
    unfolding calc_avgVolume_def Let_def fs_def w_def slice_window [OF assms] ..
  have len: "length fs = length (non_null w)"
    unfolding fs_def by (rule length_filter_non_null)
  have sum: "foldl (\<lambda>sum vol. js_add sum (case vol of None \<Rightarrow> Fin 0 | Some r \<Rightarrow> Fin r))
                      (Fin 0) fs = Fin (sum_list (non_null w))"
    unfolding fs_def using foldl_js_add_non_null [of 0 w] by simp
  show ?thesis
    unfolding avg len sum w_def [symmetric] by (simp add: mean_def)
qed

text \<open>
  C1. For a non-empty series with one volume for each timestamp, the resolved target index
  \<open>i\<close> lies in the series, the window from \<open>max 0 (i - 9)\<close> to \<open>i\<close> has
  \<open>min 10 (i + 1)\<close> points, and \<open>avgVolume\<close> is the arithmetic mean of the volumes of the
  window that are not null, or 0 when all of them are null.
\<close>

theorem avgVolume_is_window_mean:
  assumes "timestamps s \<noteq> []"
    and "length (volumes s) = length (timestamps s)"
    and "resolve_targetIndex e d (timestamps s) = int i"
  shows "i < length (timestamps s) \<and>
         length (window_volumes (volumes s) i) = min 10 (i + 1) \<and>
         stock.avgVolume (stockData e name d s) =
           (if non_null (window_volumes (volumes s) i) = [] then Fin 0
            else Fin (mean (non_null (window_volumes (volumes s) i))))"
proof -
  have "i < length (timestamps s)"
    using resolve_targetIndex_range [OF assms(1), of e d] assms(3) by simp
  then show ?thesis
    using assms(2,3) by (simp add: stockData_def Let_def calc_avgVolume_mean length_window)
qed

theorem avgVolume_is_window_mean_witness:
  "timestamps two_day_series \<noteq> [] \<and>
   length (volumes two_day_series) = length (timestamps two_day_series) \<and>
   resolve_targetIndex demo_env None (timestamps two_day_series) = int 1 \<and>
   window_volumes (volumes two_day_series) 1 = [Some 1000, Some 3000] \<and>
   stock.avgVolume (stockData demo_env ''QQQ'' None two_day_series) = Fin 2000"
  using avgVolume_is_window_mean [of two_day_series demo_env None 1 "''QQQ''"]
  by (simp add: two_day_series_def resolve_targetIndex_def window_volumes_def non_null_def mean_def)

section \<open>The volume ratio\<close>

lemma calc_avgVolume_any:
  "calc_avgVolume vols ti =
     (let w = non_null (js_slice vols (max 0 (ti - 9)) (ti + 1)) in
      if w = [] then Fin 0 else Fin (sum_list w / real (length w)))"
proof -
  define sl where "sl = js_slice vols (max 0 (ti - 9)) (ti + 1)"
  define fs where "fs = filter (\<lambda>v. v \<noteq> None) sl"
  have avg: "calc_avgVolume vols ti =
      (if 0 < length fs
       then js_div (foldl (\<lambda>sum vol. js_add sum (case vol of None \<Rightarrow> Fin 0 | Some r \<Rightarrow> Fin r))
                      (Fin 0) fs) (Fin (real (length fs)))
       else Fin 0)"
    unfolding calc_avgVolume_def Let_def fs_def sl_def ..
  have len: "length fs = length (non_null sl)"
    unfolding fs_def by (rule length_filter_non_null)
  have sum: "foldl (\<lambda>sum vol. js_add sum (case vol of None \<Rightarrow> Fin 0 | Some r \<Rightarrow> Fin r))
                      (Fin 0) fs = Fin (sum_list (non_null sl))"
    unfolding fs_def using foldl_js_add_non_null [of 0 sl] by simp
  show ?thesis
    unfolding avg len sum sl_def [symmetric] by (simp add: Let_def)
qed

lemma set_js_slice: "set (js_slice xs a b) \<subseteq> set xs"
  unfolding js_slice_def Let_def by (meson set_take_subset set_drop_subset subset_trans)

lemma non_null_nonneg:
  assumes "volumes_well_formed xs" and "r \<in> set (non_null xs)"
  shows "0 \<le> r"
  using assms
  by (induction xs) (auto simp: volumes_well_formed_def non_null_def split: option.splits)

lemma well_formed_subset:
  assumes "volumes_well_formed xs" and "set ys \<subseteq> set xs"
  shows "volumes_well_formed ys"
  using assms by (auto simp: volumes_well_formed_def list_all_iff)

lemma calc_avgVolume_nonneg:
  assumes "volumes_well_formed vols"
  shows "\<exists>a. calc_avgVolume vols ti = Fin a \<and> 0 \<le> a"
proof -
  define w where "w = non_null (js_slice vols (max 0 (ti - 9)) (ti + 1))"
  have "\<And>r. r \<in> set w \<Longrightarrow> 0 \<le> r"
    unfolding w_def
    using non_null_nonneg well_formed_subset [OF assms set_js_slice] by blast
  then have "0 \<le> sum_list w" by (simp add: sum_list_nonneg)
  then show ?thesis
    unfolding calc_avgVolume_any Let_def w_def [symmetric] by simp
qed

lemma calc_currentVolume_nonneg:
  assumes "volumes_well_formed vols"
  shows "\<exists>c. calc_currentVolume vols ti = Fin c \<and> 0 \<le> c"
proof (cases "0 \<le> ti \<and> ti < int (length vols)")
  case True
  then have "nat ti < length vols" by linarith
  then have "vols ! nat ti \<in> set vols" by (rule nth_mem)
  then have "case vols ! nat ti of None \<Rightarrow> True | Some r \<Rightarrow> 0 \<le> r"
    using assms by (simp add: volumes_well_formed_def list_all_iff)
  then show ?thesis
    using True by (auto simp: calc_currentVolume_def js_index_def js_or_def split: option.splits)
next
  case False
  then show ?thesis
    by (auto simp: calc_currentVolume_def js_index_def js_or_def)
qed

section \<open>The price change\<close>

lemma calc_priceChange_eq:
  assumes "i < length cls"
  shows "calc_priceChange cls (int i) =
           (if 0 < i
            then (case cls ! (i - 1) of
                    None \<Rightarrow> Fin 0
                  | Some p \<Rightarrow>
                      if 0 < p
                      then Fin ((((case cls ! i of None \<Rightarrow> 0 | Some c \<Rightarrow> c) - p) / p) * 100)
                      else Fin 0)
            else Fin 0)"
proof (cases "0 < i")
  case True
  then have n: "nat (int i - 1) = i - 1" by simp
  show ?thesis
    using True assms
    by (auto simp: calc_priceChange_def js_index_def js_or_def js_sub_def Let_def n
        split: option.splits)
next
  case False
  then show ?thesis
    using assms
    by (auto simp: calc_priceChange_def js_index_def js_or_def js_sub_def Let_def
        split: option.splits)
qed

section \<open>The example series, evaluated\<close>

lemma two_day_targetIndex:
  "resolve_targetIndex demo_env None (timestamps two_day_series) = 1"
  by (simp add: resolve_targetIndex_def two_day_series_def)

lemma two_day_avgVolume: "calc_avgVolume (volumes two_day_series) 1 = Fin 2000"
  using calc_avgVolume_mean [of 1 "volumes two_day_series"]
  by (simp add: two_day_series_def window_volumes_def non_null_def mean_def)

lemma two_day_currentVolume: "calc_currentVolume (volumes two_day_series) 1 = Fin 3000"
  by (simp add: calc_currentVolume_def js_index_def js_or_def two_day_series_def)

lemma two_day_vlRatio: "calc_vlRatio (volumes two_day_series) 1 = Fin (3 / 2)"
  by (simp add: calc_vlRatio_def two_day_avgVolume two_day_currentVolume)

lemma two_day_priceChange: "calc_priceChange (closes two_day_series) 1 = Fin 10"
  using calc_priceChange_eq [of 1 "closes two_day_series"]
  by (simp add: two_day_series_def)

lemma two_day_stock:
  "stockData demo_env name None two_day_series =
     \<lparr> stock.symbol = name, currentVolume = Fin 3000, avgVolume = Fin 2000,
       vlRatio = Fin (3 / 2), price = Num 110, priceChange = Fin 10,
       timestamp = Fin 1700086400000, date = ''Wed Nov 15 2023'' \<rparr>"
proof -
  have ts: "timestamps two_day_series = [1700000000, 1700086400]"
    and cl: "closes two_day_series = [Some 100, Some 110]"
    by (simp_all add: two_day_series_def)
  have px: "js_index (closes two_day_series) 1 = Num 110"
    by (simp add: js_index_def cl)
  have e: "toDateString demo_env 1700086400 = ''Wed Nov 15 2023''"
    by (simp add: demo_env_def)
  show ?thesis
    unfolding stockData_def Let_def two_day_targetIndex two_day_avgVolume
      two_day_currentVolume two_day_vlRatio two_day_priceChange px
    by (simp add: ts e)
qed

section \<open>Claims on the fetched metrics\<close>

text \<open>
  C7. For every series whose volumes are finite and not negative, \<open>vlRatio\<close> is a finite
  number that is not negative, so neither NaN nor an infinity; and when \<open>avgVolume\<close> is 0
  the ratio is 0, not the result of a division.
\<close>

theorem vlRatio_finite_nonneg:
  assumes "volumes_well_formed (volumes s)"
  shows "(\<exists>r. stock.vlRatio (stockData e name d s) = Fin r \<and> 0 \<le> r) \<and>
         (stock.avgVolume (stockData e name d s) = Fin 0 \<longrightarrow>
            stock.vlRatio (stockData e name d s) = Fin 0)"
proof -
  define ti where "ti = resolve_targetIndex e d (timestamps s)"
  obtain a where a: "calc_avgVolume (volumes s) ti = Fin a" "0 \<le> a"
    using calc_avgVolume_nonneg [OF assms] by blast
  obtain c where c: "calc_currentVolume (volumes s) ti = Fin c" "0 \<le> c"
    using calc_currentVolume_nonneg [OF assms] by blast
  have "calc_vlRatio (volumes s) ti = (if 0 < a then Fin (c / a) else Fin 0)"
    by (simp add: calc_vlRatio_def Let_def a c)
  then show ?thesis
    using a c by (simp add: stockData_def Let_def ti_def [symmetric])
qed

theorem vlRatio_finite_nonneg_witness:
  "volumes_well_formed (volumes two_day_series) \<and>
   stock.vlRatio (stockData demo_env ''QQQ'' None two_day_series) = Fin (3 / 2)"
  using vlRatio_finite_nonneg [of two_day_series demo_env "''QQQ''" None]
  by (simp add: two_day_stock) (simp add: two_day_series_def volumes_well_formed_def)




section \<open>The handler and its fetches\<close>

lemma uniq_foldl:
  "set (foldl (\<lambda>acc x. if x \<in> set acc then acc else acc @ [x]) acc xs) = set acc \<union> set xs \<and>
   (distinct acc \<longrightarrow> distinct (foldl (\<lambda>acc x. if x \<in> set acc then acc else acc @ [x]) acc xs))"
  by (induction xs arbitrary: acc) auto

lemma set_uniq: "set (uniq xs) = set xs"
  using uniq_foldl [of "[]" xs] by (simp add: uniq_def)

lemma distinct_uniq: "distinct (uniq xs)"
  using uniq_foldl [of "[]" xs] by (simp add: uniq_def)

lemma symbol_stockData: "stock.symbol (stockData e name d s) = name"
  by (simp add: stockData_def Let_def)

lemma symbol_getStockDataAPI:
  "getStockDataAPI e name d = Some st \<Longrightarrow> stock.symbol st = name"
  by (auto simp: getStockDataAPI_def symbol_stockData)

lemma validResults_member:
  "st \<in> set (validResults e d names) \<longleftrightarrow> (\<exists>name \<in> set names. getStockDataAPI e name d = Some st)"
  by (induction names) (auto simp: validResults_def List.map_filter_simps split: option.splits)

lemma find_validResults:
  "find (\<lambda>r. stock.symbol r = B) (validResults e d names) =
     (if B \<in> set names then getStockDataAPI e B d else None)"
proof (induction names)
  case Nil
  then show ?case by (simp add: validResults_def List.map_filter_simps)
next
  case (Cons n names)
  show ?case
  proof (cases "getStockDataAPI e n d")
    case None
    then show ?thesis
      using Cons by (auto simp: validResults_def List.map_filter_simps)
  next
    case (Some st)
    then have "stock.symbol st = n" by (rule symbol_getStockDataAPI)
    then show ?thesis
      using Cons Some by (auto simp: validResults_def List.map_filter_simps)
  qed
qed

lemma analyze_Success:
  assumes "response (analyze e l req) = Success xs rd"
  shows "\<exists>syms. symbols req = SymArray syms \<and>
           xs = analysisResults (validResults e (request.date req) (uniq (benchmarks @ syms)))"
  using assms
  by (cases "symbols req") (auto simp: analyze_def Let_def split: if_splits)

lemma find_benchmark:
  assumes "B \<in> set benchmarks"
  shows "find (\<lambda>r. stock.symbol r = B) (validResults e d (uniq (benchmarks @ syms))) =
           getStockDataAPI e B d"
  using assms by (simp add: find_validResults set_uniq)

lemma analysisResults_eq:
  "analysisResults (validResults e d (uniq (benchmarks @ syms))) =
     map (analysisResult (getStockDataAPI e ''QQQ'' d) (getStockDataAPI e ''SPY'' d)
            (getStockDataAPI e ''IWM'' d))
       (validResults e d (uniq (benchmarks @ syms)))"
proof -
  have "''QQQ'' \<in> set benchmarks" "''SPY'' \<in> set benchmarks" "''IWM'' \<in> set benchmarks"
    by (simp_all add: benchmarks_def)
  then show ?thesis
    unfolding analysisResults_def Let_def by (simp only: find_benchmark)
qed

lemma comparisons_lookup:
  assumes "B \<in> set benchmarks"
  shows "map_of (analysis.comparisons
                   (analysisResult (getStockDataAPI e ''QQQ'' d) (getStockDataAPI e ''SPY'' d)
                      (getStockDataAPI e ''IWM'' d) st)) (''vs_'' @ B) =
           Some (comparison_of (compareTo (getStockDataAPI e B d) st))"
  using assms by (auto simp: benchmarks_def analysisResult_def Let_def)

text \<open>Every emitted element comes from one valid result, and carries its comparisons.\<close>

lemma data_element:
  assumes "response (analyze e l req) = Success xs rd" and "r \<in> set xs"
  shows "\<exists>st. getStockDataAPI e (analysis.symbol r) (request.date req) = Some st \<and>
           r = analysisResult (getStockDataAPI e ''QQQ'' (request.date req))
                 (getStockDataAPI e ''SPY'' (request.date req))
                 (getStockDataAPI e ''IWM'' (request.date req)) st"
proof -
  obtain syms where xs: "xs = analysisResults
      (validResults e (request.date req) (uniq (benchmarks @ syms)))"
    using analyze_Success [OF assms(1)] by blast
  then obtain st where st: "st \<in> set (validResults e (request.date req) (uniq (benchmarks @ syms)))"
    and r: "r = analysisResult (getStockDataAPI e ''QQQ'' (request.date req))
                 (getStockDataAPI e ''SPY'' (request.date req))
                 (getStockDataAPI e ''IWM'' (request.date req)) st"
    using assms(2) unfolding analysisResults_eq by auto
  obtain name where "getStockDataAPI e name (request.date req) = Some st"
    using st unfolding validResults_member by blast
  moreover from this have "stock.symbol st = name" by (rule symbol_getStockDataAPI)
  moreover have "analysis.symbol r = stock.symbol st"
    unfolding r by (simp add: analysisResult_def Let_def)
  ultimately show ?thesis using r by auto
qed

lemma comparison_of_one: "comparison_of (Fin 1) = \<lparr> comparison.ratio = Fin 1, status = ''weaker'' \<rparr>"
  by (simp add: comparison_of_def)

section \<open>The example request, evaluated\<close>

lemma flat_stock:
  "stockData demo_env name None flat_series =
     \<lparr> stock.symbol = name, currentVolume = Fin 0, avgVolume = Fin 500,
       vlRatio = Fin 0, price = Num 50, priceChange = Fin 0,
       timestamp = Fin 1700086400000, date = ''Wed Nov 15 2023'' \<rparr>"
proof -
  have ts: "timestamps flat_series = [1700000000, 1700086400]"
    and cl: "closes flat_series = [Some 50, Some 50]"
    and vo: "volumes flat_series = [Some 500, None]"
    by (simp_all add: flat_series_def)
  have ti: "resolve_targetIndex demo_env None (timestamps flat_series) = 1"
    by (simp add: resolve_targetIndex_def ts)
  have avg: "calc_avgVolume (volumes flat_series) 1 = Fin 500"
    using calc_avgVolume_mean [of 1 "volumes flat_series"]
    by (simp add: vo window_volumes_def non_null_def mean_def)
  have cur: "calc_currentVolume (volumes flat_series) 1 = Fin 0"
    by (simp add: calc_currentVolume_def js_index_def js_or_def vo)
  have vl: "calc_vlRatio (volumes flat_series) 1 = Fin 0"
    by (simp add: calc_vlRatio_def avg cur)
  have pc: "calc_priceChange (closes flat_series) 1 = Fin 0"
    using calc_priceChange_eq [of 1 "closes flat_series"] by (simp add: cl)
  have px: "js_index (closes flat_series) 1 = Num 50"
    by (simp add: js_index_def cl)
  have e: "toDateString demo_env 1700086400 = ''Wed Nov 15 2023''"
    by (simp add: demo_env_def)
  show ?thesis
    unfolding stockData_def Let_def ti avg cur vl pc px by (simp add: ts e)
qed

lemma rising_stock:
  "stockData demo_env name None rising_series =
     \<lparr> stock.symbol = name, currentVolume = Fin 2001, avgVolume = Fin (3001 / 2),
       vlRatio = Fin (4002 / 3001), price = Num 37, priceChange = Fin (2333 / 100),
       timestamp = Fin 1700086400000, date = ''Wed Nov 15 2023'' \<rparr>"
proof -
  have ts: "timestamps rising_series = [1700000000, 1700086400]"
    and cl: "closes rising_series = [Some 30, Some 37]"
    and vo: "volumes rising_series = [Some 1000, Some 2001]"
    by (simp_all add: rising_series_def)
  have ti: "resolve_targetIndex demo_env None (timestamps rising_series) = 1"
    by (simp add: resolve_targetIndex_def ts)
  have avg: "calc_avgVolume (volumes rising_series) 1 = Fin (3001 / 2)"
    using calc_avgVolume_mean [of 1 "volumes rising_series"]
    by (simp add: vo window_volumes_def non_null_def mean_def)
  have cur: "calc_currentVolume (volumes rising_series) 1 = Fin 2001"
    by (simp add: calc_currentVolume_def js_index_def js_or_def vo)
  have vl: "calc_vlRatio (volumes rising_series) 1 = Fin (4002 / 3001)"
    by (simp add: calc_vlRatio_def avg cur)
  have pc: "calc_priceChange (closes rising_series) 1 = Fin (70 / 3)"
    using calc_priceChange_eq [of 1 "closes rising_series"] by (simp add: cl)
  have px: "js_index (closes rising_series) 1 = Num 37"
    by (simp add: js_index_def cl)
  have e: "toDateString demo_env 1700086400 = ''Wed Nov 15 2023''"
    by (simp add: demo_env_def)
  show ?thesis
    unfolding stockData_def Let_def ti avg cur vl pc px by (simp add: ts e)
qed

lemma demo_fetches:
  "getStockDataAPI demo_env ''QQQ'' None = Some (stockData demo_env ''QQQ'' None two_day_series)"
  "getStockDataAPI demo_env ''SPY'' None = Some (stockData demo_env ''SPY'' None flat_series)"
  "getStockDataAPI demo_env ''IWM'' None = None"
  "getStockDataAPI demo_env ''AAPL'' None = Some (stockData demo_env ''AAPL'' None rising_series)"
  by (simp_all add: getStockDataAPI_def demo_env_def)

lemma demo_allSymbols: "uniq (benchmarks @ [''AAPL'']) = [''QQQ'', ''SPY'', ''IWM'', ''AAPL'']"
  by (simp add: uniq_def benchmarks_def)

lemma empty_allSymbols: "uniq benchmarks = [''QQQ'', ''SPY'', ''IWM'']"
  by (simp add: uniq_def benchmarks_def)

lemma demo_validResults:
  "validResults demo_env None [''QQQ'', ''SPY'', ''IWM'', ''AAPL''] =
     [stockData demo_env ''QQQ'' None two_day_series,
      stockData demo_env ''SPY'' None flat_series,
      stockData demo_env ''AAPL'' None rising_series]"
  by (simp add: validResults_def List.map_filter_simps demo_fetches)

lemma demo_analysisResults:
  "analysisResults
     [stockData demo_env ''QQQ'' None two_day_series,
      stockData demo_env ''SPY'' None flat_series,
      stockData demo_env ''AAPL'' None rising_series] = demo_data"
  unfolding two_day_stock flat_stock rising_stock
  by (simp add: analysisResults_def analysisResult_def compareTo_def comparison_of_def
      js_strict_neq_def demo_data_def Let_def)

lemma demo_analyze:
  "analyze demo_env True demo_request =
     \<lparr> response = Success demo_data ''latest'',
       fetched = [''QQQ'', ''SPY'', ''IWM'', ''AAPL''], browser = True \<rparr>"
  by (simp add: analyze_def demo_request_def demo_allSymbols demo_validResults
      demo_analysisResults)

lemma empty_validResults:
  "validResults demo_env None [''QQQ'', ''SPY'', ''IWM''] =
     [stockData demo_env ''QQQ'' None two_day_series,
      stockData demo_env ''SPY'' None flat_series]"
  by (simp add: validResults_def List.map_filter_simps demo_fetches)

lemma empty_analyze:
  "fetched (analyze demo_env True empty_request) = [''QQQ'', ''SPY'', ''IWM''] \<and>
   (\<exists>xs. response (analyze demo_env True empty_request) = Success xs ''latest'')"
  by (simp add: analyze_def empty_request_def empty_allSymbols empty_validResults Let_def)

lemma doubled_stock:
  "stockData doubling_env name None doubled_series =
     \<lparr> stock.symbol = name, currentVolume = Fin 1000, avgVolume = Fin 1000,
       vlRatio = Fin 1, price = Num 200, priceChange = Fin 100,
       timestamp = Fin 1700086400000, date = ''Wed Nov 15 2023'' \<rparr>"
proof -
  have ts: "timestamps doubled_series = [1700000000, 1700086400]"
    and cl: "closes doubled_series = [Some 100, Some 200]"
    and vo: "volumes doubled_series = [Some 1000, Some 1000]"
    by (simp_all add: doubled_series_def)
  have ti: "resolve_targetIndex doubling_env None (timestamps doubled_series) = 1"
    by (simp add: resolve_targetIndex_def ts)
  have avg: "calc_avgVolume (volumes doubled_series) 1 = Fin 1000"
    using calc_avgVolume_mean [of 1 "volumes doubled_series"]
    by (simp add: vo window_volumes_def non_null_def mean_def)
  have cur: "calc_currentVolume (volumes doubled_series) 1 = Fin 1000"
    by (simp add: calc_currentVolume_def js_index_def js_or_def vo)
  have vl: "calc_vlRatio (volumes doubled_series) 1 = Fin 1"
    by (simp add: calc_vlRatio_def avg cur)
  have pc: "calc_priceChange (closes doubled_series) 1 = Fin 100"
    using calc_priceChange_eq [of 1 "closes doubled_series"] by (simp add: cl)
  have px: "js_index (closes doubled_series) 1 = Num 200"
    by (simp add: js_index_def cl)
  have e: "toDateString doubling_env 1700086400 = ''Wed Nov 15 2023''"
    by (simp add: doubling_env_def)
  show ?thesis
    unfolding stockData_def Let_def ti avg cur vl pc px by (simp add: ts e)
qed

lemma doubled_plus_stock:
  "stockData doubling_env name None doubled_plus_series =
     \<lparr> stock.symbol = name, currentVolume = Fin 1000, avgVolume = Fin 1000,
       vlRatio = Fin 1, price = Num (20004 / 100), priceChange = Fin (10004 / 100),
       timestamp = Fin 1700086400000, date = ''Wed Nov 15 2023'' \<rparr>"
proof -
  have ts: "timestamps doubled_plus_series = [1700000000, 1700086400]"
    and cl: "closes doubled_plus_series = [Some 100, Some 200.04]"
    and vo: "volumes doubled_plus_series = [Some 1000, Some 1000]"
    by (simp_all add: doubled_plus_series_def)
  have ti: "resolve_targetIndex doubling_env None (timestamps doubled_plus_series) = 1"
    by (simp add: resolve_targetIndex_def ts)
  have avg: "calc_avgVolume (volumes doubled_plus_series) 1 = Fin 1000"
    using calc_avgVolume_mean [of 1 "volumes doubled_plus_series"]
    by (simp add: vo window_volumes_def non_null_def mean_def)
  have cur: "calc_currentVolume (volumes doubled_plus_series) 1 = Fin 1000"
    by (simp add: calc_currentVolume_def js_index_def js_or_def vo)
  have vl: "calc_vlRatio (volumes doubled_plus_series) 1 = Fin 1"
    by (simp add: calc_vlRatio_def avg cur)
  have pc: "calc_priceChange (closes doubled_plus_series) 1 = Fin (10004 / 100)"
    using calc_priceChange_eq [of 1 "closes doubled_plus_series"] by (simp add: cl)
  have px: "js_index (closes doubled_plus_series) 1 = Num (20004 / 100)"
    by (simp add: js_index_def cl)
  have e: "toDateString doubling_env 1700086400 = ''Wed Nov 15 2023''"
    by (simp add: doubling_env_def)
  show ?thesis
    unfolding stockData_def Let_def ti avg cur vl pc px by (simp add: ts e)
qed

lemma doubling_fetches:
  "getStockDataAPI doubling_env ''QQQ'' None =
     Some (stockData doubling_env ''QQQ'' None doubled_series)"
  "getStockDataAPI doubling_env ''SPY'' None = None"
  "getStockDataAPI doubling_env ''IWM'' None = None"
  "getStockDataAPI doubling_env ''AAPL'' None =
     Some (stockData doubling_env ''AAPL'' None doubled_plus_series)"
  by (simp_all add: getStockDataAPI_def doubling_env_def)

lemma doubling_analyze:
  "analyze doubling_env True demo_request =
     \<lparr> response = Success doubling_data ''latest'',
       fetched = [''QQQ'', ''SPY'', ''IWM'', ''AAPL''], browser = True \<rparr>"
proof -
  have vr: "validResults doubling_env None [''QQQ'', ''SPY'', ''IWM'', ''AAPL''] =
      [stockData doubling_env ''QQQ'' None doubled_series,
       stockData doubling_env ''AAPL'' None doubled_plus_series]"
    by (simp add: validResults_def List.map_filter_simps doubling_fetches)
  have ar: "analysisResults
      [stockData doubling_env ''QQQ'' None doubled_series,
       stockData doubling_env ''AAPL'' None doubled_plus_series] = doubling_data"
    unfolding doubled_stock doubled_plus_stock
    by (simp add: analysisResults_def analysisResult_def compareTo_def comparison_of_def
        js_strict_neq_def doubling_data_def Let_def)
  show ?thesis
    by (simp add: analyze_def demo_request_def demo_allSymbols vr ar)
qed

lemma short_stock:
  "stockData short_env name None short_series =
     \<lparr> stock.symbol = name, currentVolume = Fin 1000, avgVolume = Fin 1000,
       vlRatio = Fin 1, price = Undefined, priceChange = NaN,
       timestamp = Fin 1700172800000, date = ''Thu Nov 16 2023'' \<rparr>"
proof -
  have ts: "timestamps short_series = [1700000000, 1700086400, 1700172800]"
    and cl: "closes short_series = [Some 8, Some 4]"
    and vo: "volumes short_series = [Some 1000, Some 1000, Some 1000]"
    by (simp_all add: short_series_def)
  have ti: "resolve_targetIndex short_env None (timestamps short_series) = 2"
    by (simp add: resolve_targetIndex_def ts)
  have avg: "calc_avgVolume (volumes short_series) 2 = Fin 1000"
    using calc_avgVolume_mean [of 2 "volumes short_series"]
    by (simp add: vo window_volumes_def non_null_def mean_def upt_rec)
  have cur: "calc_currentVolume (volumes short_series) 2 = Fin 1000"
    by (simp add: calc_currentVolume_def js_index_def js_or_def vo)
  have vl: "calc_vlRatio (volumes short_series) 2 = Fin 1"
    by (simp add: calc_vlRatio_def avg cur)
  have px: "js_index (closes short_series) 2 = Undefined"
    by (simp add: js_index_def cl)
  have pv: "js_index (closes short_series) (2 - 1) = Num 4"
    by (simp add: js_index_def cl)
  have pc: "calc_priceChange (closes short_series) 2 = NaN"
    unfolding calc_priceChange_def Let_def px pv by (simp add: js_or_def js_sub_def)
  have e: "toDateString short_env 1700172800 = ''Thu Nov 16 2023''"
    by (simp add: short_env_def)
  show ?thesis
    unfolding stockData_def Let_def ti avg cur vl pc px by (simp add: ts e)
qed

lemma short_fetches:
  "getStockDataAPI short_env ''QQQ'' None = Some (stockData short_env ''QQQ'' None short_series)"
  "getStockDataAPI short_env ''SPY'' None = None"
  "getStockDataAPI short_env ''IWM'' None = None"
  by (simp_all add: getStockDataAPI_def short_env_def)

lemma short_analyze:
  "analyze short_env True empty_request =
     \<lparr> response = Success short_data ''latest'',
       fetched = [''QQQ'', ''SPY'', ''IWM''], browser = True \<rparr>"
proof -
  have vr: "validResults short_env None [''QQQ'', ''SPY'', ''IWM''] =
      [stockData short_env ''QQQ'' None short_series]"
    by (simp add: validResults_def List.map_filter_simps short_fetches)
  have ar: "analysisResults [stockData short_env ''QQQ'' None short_series] = short_data"
    unfolding short_stock
    by (simp add: analysisResults_def analysisResult_def compareTo_def comparison_of_def
        js_strict_neq_def short_data_def Let_def)
  show ?thesis
    by (simp add: analyze_def empty_request_def empty_allSymbols vr ar Let_def)
qed

section \<open>Claims on the handler\<close>

text \<open>
  C2 as stated fails: the request for IWM fails, the reply is a success, and each of its
  three elements still has the comparison \<open>vs_IWM\<close>, with the default ratio 1.
\<close>

theorem failed_benchmark_comparison_counterexample:
  "getStockDataAPI demo_env ''IWM'' (request.date demo_request) = None \<and>
   response (analyze demo_env True demo_request) = Success demo_data ''latest'' \<and>
   map (\<lambda>r. map_of (analysis.comparisons r) ''vs_IWM'') demo_data =
     [Some \<lparr> comparison.ratio = Fin 1, status = ''weaker'' \<rparr>,
      Some \<lparr> comparison.ratio = Fin 1, status = ''weaker'' \<rparr>,
      Some \<lparr> comparison.ratio = Fin 1, status = ''weaker'' \<rparr>]"
  by (simp add: demo_analyze demo_fetches) (simp add: demo_request_def demo_fetches demo_data_def)

text \<open>
  C2, as amended. When the fetch of a benchmark fails and the reply is a success, every
  element of \<open>data\<close> has the comparison against that benchmark all the same, with the
  ratio 1 and the status \<open>weaker\<close>.
\<close>

theorem failed_benchmark_default_ratio:
  assumes "B \<in> set benchmarks"
    and "getStockDataAPI e B (request.date req) = None"
    and "response (analyze e l req) = Success xs rd"
    and "r \<in> set xs"
  shows "map_of (analysis.comparisons r) (''vs_'' @ B) =
           Some \<lparr> comparison.ratio = Fin 1, status = ''weaker'' \<rparr>"
proof -
  obtain st where
    "r = analysisResult (getStockDataAPI e ''QQQ'' (request.date req))
           (getStockDataAPI e ''SPY'' (request.date req))
           (getStockDataAPI e ''IWM'' (request.date req)) st"
    using data_element [OF assms(3,4)] by blast
  then have "map_of (analysis.comparisons r) (''vs_'' @ B) =
      Some (comparison_of (compareTo (getStockDataAPI e B (request.date req)) st))"
    using comparisons_lookup [OF assms(1)] by simp
  then show ?thesis
    by (simp add: assms(2) compareTo_def comparison_of_one)
qed

theorem failed_benchmark_default_ratio_witness:
  "''IWM'' \<in> set benchmarks \<and>
   getStockDataAPI demo_env ''IWM'' (request.date demo_request) = None \<and>
   response (analyze demo_env True demo_request) = Success demo_data ''latest'' \<and>
   hd demo_data \<in> set demo_data \<and>
   map_of (analysis.comparisons (hd demo_data)) ''vs_IWM'' =
     Some \<lparr> comparison.ratio = Fin 1, status = ''weaker'' \<rparr>"
  using failed_benchmark_default_ratio [of "''IWM''" demo_env demo_request True demo_data
      "''latest''" "hd demo_data"]
  by (simp add: demo_analyze demo_fetches benchmarks_def)
    (simp add: demo_request_def demo_fetches demo_data_def)

text \<open>
  C3 as stated fails for the empty array: it passes the validation, and the three
  benchmarks are fetched.
\<close>

theorem empty_symbols_accepted_counterexample:
  "symbols empty_request = SymArray [] \<and>
   fetched (analyze demo_env True empty_request) = [''QQQ'', ''SPY'', ''IWM''] \<and>
   response (analyze demo_env True empty_request) \<noteq> Error 400 ''Symbols array is required''"
  using empty_analyze by (auto simp: empty_request_def)

text \<open>
  C3, as amended. A request whose \<open>symbols\<close> is missing or not an array gets the reply 400
  and nothing is fetched; a request whose \<open>symbols\<close> is the empty array passes the
  validation and, the browser being launched, exactly the three benchmarks are fetched.
\<close>

theorem symbols_validation:
  "(symbols req = SymMissing \<or> symbols req = SymNotArray \<longrightarrow>
      analyze e l req =
        \<lparr> response = Error 400 ''Symbols array is required'', fetched = [], browser = l \<rparr>) \<and>
   (symbols req = SymArray [] \<and> (l \<or> launch_ok e) \<longrightarrow>
      fetched (analyze e l req) = benchmarks \<and>
      response (analyze e l req) \<noteq> Error 400 ''Symbols array is required'')"
proof -
  have "uniq (benchmarks @ []) = benchmarks"
    by (simp add: uniq_def benchmarks_def)
  then show ?thesis
    by (auto simp: analyze_def Let_def)
qed

theorem symbols_validation_witness:
  "symbols missing_request = SymMissing \<and>
   analyze demo_env True missing_request =
     \<lparr> response = Error 400 ''Symbols array is required'', fetched = [], browser = True \<rparr> \<and>
   symbols empty_request = SymArray [] \<and>
   fetched (analyze demo_env True empty_request) = benchmarks"
  using symbols_validation [of missing_request demo_env True]
    symbols_validation [of empty_request demo_env True]
  by (simp add: missing_request_def empty_request_def)

section \<open>Rounding\<close>

lemma floor_half_near: "\<bar>real_of_int \<lfloor>y + 1 / 2\<rfloor> - y\<bar> \<le> 1 / 2"
  for y :: real
  by linarith

lemma nearest_multiple:
  fixes a k :: real
  assumes "0 < k"
  shows "\<bar>real_of_int \<lfloor>a * k + 1 / 2\<rfloor> / k - a\<bar> \<le> 1 / (2 * k)"
proof -
  have "real_of_int \<lfloor>a * k + 1 / 2\<rfloor> / k - a = (real_of_int \<lfloor>a * k + 1 / 2\<rfloor> - a * k) / k"
    using assms by (simp add: field_simps)
  then have "\<bar>real_of_int \<lfloor>a * k + 1 / 2\<rfloor> / k - a\<bar> = \<bar>real_of_int \<lfloor>a * k + 1 / 2\<rfloor> - a * k\<bar> / k"
    using assms by simp
  also have "\<dots> \<le> (1 / 2) / k"
    using divide_right_mono [OF floor_half_near [of "a * k"], of k] assms by simp
  finally show ?thesis by simp
qed

lemma rounded_to_toFixed: "rounded_to d x (parseFloat_toFixed d x)"
proof (cases x)
  case (Fin a)
  define k :: real where "k = 10 ^ d"
  have k: "0 < k" by (simp add: k_def)
  define n where "n = \<lfloor>\<bar>a\<bar> * k + 1 / 2\<rfloor>"
  define b where "b = sgn a * real_of_int n / k"
  have b: "parseFloat_toFixed d x = Fin b"
    by (simp add: Fin b_def n_def k_def)
  have int: "real_of_int \<lfloor>b * k\<rfloor> = b * k"
  proof -
    have "b * k = sgn a * real_of_int n" using k by (simp add: b_def)
    also have "\<dots> = real_of_int (sgn \<lfloor>a\<rfloor> * 0 + (if a < 0 then - n else if a = 0 then 0 else n))"
      by (simp add: sgn_if)
    finally show ?thesis by (metis floor_of_int)
  qed
  have near: "\<bar>b - a\<bar> \<le> 1 / (2 * k)"
  proof (cases "0 \<le> a")
    case True
    then have "b - a = sgn a * (real_of_int n / k - \<bar>a\<bar>)"
      by (auto simp: b_def sgn_if)
    then have "\<bar>b - a\<bar> \<le> \<bar>real_of_int n / k - \<bar>a\<bar>\<bar>"
      by (auto simp: sgn_if abs_mult)
    then show ?thesis
      using nearest_multiple [OF k, of "\<bar>a\<bar>"] unfolding n_def by linarith
  next
    case False
    then have "b - a = sgn a * (real_of_int n / k - \<bar>a\<bar>)"
      by (auto simp: b_def sgn_if)
    then have "\<bar>b - a\<bar> \<le> \<bar>real_of_int n / k - \<bar>a\<bar>\<bar>"
      by (auto simp: sgn_if abs_mult)
    then show ?thesis
      using nearest_multiple [OF k, of "\<bar>a\<bar>"] unfolding n_def by linarith
  qed
  have "rounded_to d (Fin a) (Fin b)"
    using int near by (simp add: k_def)
  then show ?thesis
    unfolding b unfolding Fin .
qed simp_all

lemma rounded_to_Math_round: "rounded_to 0 x (Math_round x)"
proof (cases x)
  case (Fin a)
  then show ?thesis
    using floor_half_near [of a] by simp
qed simp_all

section \<open>The price change is finite\<close>

lemma calc_priceChange_finite:
  assumes "ti < int (length cls)"
  shows "\<exists>p. calc_priceChange cls ti = Fin p"
proof (cases "0 \<le> ti")
  case True
  then have "nat ti < length cls" using assms by linarith
  from calc_priceChange_eq [OF this] True show ?thesis
    by (auto split: option.splits if_splits)
next
  case False
  then show ?thesis
    by (simp add: calc_priceChange_def js_index_def js_or_def Let_def)
qed

lemma resolve_targetIndex_less: "resolve_targetIndex e d ts < int (length ts)"
  using findIndex_range [of "\<lambda>t. toDateString e t = parseDate e (the d)" ts]
  by (auto simp: resolve_targetIndex_def Let_def split: option.splits)

lemma priceChange_finite:
  assumes "length (timestamps s) \<le> length (closes s)"
  shows "\<exists>p. stock.priceChange (stockData e name d s) = Fin p"
proof -
  have "resolve_targetIndex e d (timestamps s) < int (length (closes s))"
    using resolve_targetIndex_less [of e d "timestamps s"] assms by linarith
  then obtain p where p: "calc_priceChange (closes s) (resolve_targetIndex e d (timestamps s)) = Fin p"
    using calc_priceChange_finite by blast
  show ?thesis
    by (rule exI [of _ "sgn p * real_of_int \<lfloor>\<bar>p\<bar> * 10 ^ 2 + 1 / 2\<rfloor> / 10 ^ 2"])
      (simp add: stockData_def Let_def p)
qed

lemma compareTo_spec_ratio:
  "compareTo (Some b) st = spec_ratio (stock.priceChange st) (stock.priceChange b)"
  by (simp add: compareTo_def spec_ratio_def)

lemma compareTo_self:
  assumes "stock.priceChange b = Fin p"
  shows "compareTo (Some b) b = Fin 1"
  using assms by (simp add: compareTo_def js_strict_neq_def)

lemma priceChange_analysisResult:
  "analysis.priceChange (analysisResult q s i st) = stock.priceChange st"
  by (simp add: analysisResult_def Let_def)

section \<open>Claims on the comparisons\<close>

text \<open>
  C5 as stated fails on the ratio the reply carries: QQQ rose by 100 percent and AAPL by
  100.04 percent, the quotient 1.0004 is emitted as the ratio 1, which is not greater than
  1, and the status is \<open>stronger\<close>.
\<close>

theorem rounded_ratio_one_stronger_counterexample:
  "response (analyze doubling_env True demo_request) = Success doubling_data ''latest'' \<and>
   map analysis.symbol doubling_data = [''QQQ'', ''AAPL''] \<and>
   map analysis.priceChange doubling_data = [Fin 100, Fin (10004 / 100)] \<and>
   map_of (analysis.comparisons (doubling_data ! 1)) ''vs_QQQ'' =
     Some \<lparr> comparison.ratio = Fin 1, status = ''stronger'' \<rparr> \<and>
   \<not> js_gt (Fin 1) (Fin 1)"
  by (simp add: doubling_analyze) (simp add: doubling_data_def)

text \<open>
  C5, as amended. In a successful reply, for every element \<open>r\<close> and every element \<open>rb\<close>
  that is the benchmark \<open>B\<close>: \<open>r\<close> has a comparison against \<open>B\<close>; when the price change of
  \<open>B\<close> is 0 its ratio is 1 and its status \<open>weaker\<close>; and its status is \<open>stronger\<close> exactly
  when the ratio before its rounding to 3 decimals, the quotient of the two price changes
  (1 when the benchmark's is 0), is greater than 1, and \<open>weaker\<close> otherwise.
\<close>

theorem comparison_ratio_and_status:
  assumes "response (analyze e l req) = Success xs rd"
    and "r \<in> set xs" and "rb \<in> set xs"
    and "analysis.symbol rb = B" and "B \<in> set benchmarks"
  shows "\<exists>c. map_of (analysis.comparisons r) (''vs_'' @ B) = Some c \<and>
           (analysis.priceChange rb = Fin 0 \<longrightarrow>
              comparison.ratio c = Fin 1 \<and> comparison.status c = ''weaker'') \<and>
           (comparison.status c = ''stronger'' \<longleftrightarrow>
              js_gt (spec_ratio (analysis.priceChange r) (analysis.priceChange rb)) (Fin 1)) \<and>
           (comparison.status c \<noteq> ''stronger'' \<longrightarrow> comparison.status c = ''weaker'')"
proof -
  let ?d = "request.date req"
  let ?f = "analysisResult (getStockDataAPI e ''QQQ'' ?d) (getStockDataAPI e ''SPY'' ?d)
              (getStockDataAPI e ''IWM'' ?d)"
  obtain st where r: "r = ?f st"
    using data_element [OF assms(1,2)] by blast
  obtain stb where fb: "getStockDataAPI e (analysis.symbol rb) ?d = Some stb" and rb: "rb = ?f stb"
    using data_element [OF assms(1,3)] by blast
  have look: "map_of (analysis.comparisons r) (''vs_'' @ B) =
      Some (comparison_of (compareTo (getStockDataAPI e B ?d) st))"
    unfolding r by (rule comparisons_lookup [OF assms(5)])
  have c: "compareTo (getStockDataAPI e B ?d) st =
      spec_ratio (analysis.priceChange r) (analysis.priceChange rb)"
    using fb assms(4) by (simp add: compareTo_spec_ratio r rb priceChange_analysisResult)
  show ?thesis
    unfolding look c
    by (auto simp: comparison_of_def spec_ratio_def js_strict_neq_def)
qed

theorem comparison_ratio_and_status_witness:
  "response (analyze demo_env True demo_request) = Success demo_data ''latest'' \<and>
   demo_data ! 2 \<in> set demo_data \<and> demo_data ! 1 \<in> set demo_data \<and>
   demo_data ! 0 \<in> set demo_data \<and>
   analysis.symbol (demo_data ! 1) = ''SPY'' \<and> ''SPY'' \<in> set benchmarks \<and>
   analysis.symbol (demo_data ! 0) = ''QQQ'' \<and> ''QQQ'' \<in> set benchmarks \<and>
   analysis.priceChange (demo_data ! 1) = Fin 0 \<and>
   map_of (analysis.comparisons (demo_data ! 2)) ''vs_SPY'' =
     Some \<lparr> comparison.ratio = Fin 1, status = ''weaker'' \<rparr> \<and>
   spec_ratio (analysis.priceChange (demo_data ! 2)) (analysis.priceChange (demo_data ! 0)) =
     Fin (2333 / 1000) \<and>
   map_of (analysis.comparisons (demo_data ! 2)) ''vs_QQQ'' =
     Some \<lparr> comparison.ratio = Fin (2333 / 1000), status = ''stronger'' \<rparr>"
  using comparison_ratio_and_status [of demo_env True demo_request demo_data "''latest''"
      "demo_data ! 2" "demo_data ! 1" "''SPY''"]
    comparison_ratio_and_status [of demo_env True demo_request demo_data "''latest''"
      "demo_data ! 2" "demo_data ! 0" "''QQQ''"]
  by (simp add: demo_analyze benchmarks_def)
    (simp add: demo_data_def spec_ratio_def js_strict_neq_def)

text \<open>
  C10 as stated fails: the fetch of QQQ succeeds with three timestamps and two closes, its
  price change is NaN, and the comparison of QQQ against itself has the ratio NaN.
\<close>

theorem short_closes_self_comparison_counterexample:
  "''QQQ'' \<in> set benchmarks \<and>
   getStockDataAPI short_env ''QQQ'' (request.date empty_request) =
     Some (stockData short_env ''QQQ'' None short_series) \<and>
   response (analyze short_env True empty_request) = Success short_data ''latest'' \<and>
   map analysis.symbol short_data = [''QQQ''] \<and>
   map (\<lambda>r. map_of (analysis.comparisons r) ''vs_QQQ'') short_data =
     [Some \<lparr> comparison.ratio = NaN, status = ''weaker'' \<rparr>]"
  by (simp add: short_analyze short_fetches benchmarks_def)
    (simp add: empty_request_def short_fetches short_data_def)

text \<open>
  C10, as amended. In a successful reply, a benchmark \<open>B\<close> whose fetch returned a series
  with a close for each timestamp has an element of its own, and the comparison of that
  element against \<open>B\<close> has the ratio 1 and the status \<open>weaker\<close>, whatever the price change
  of \<open>B\<close>.
\<close>

theorem benchmark_self_comparison:
  assumes "response (analyze e l req) = Success xs rd"
    and "B \<in> set benchmarks"
    and "http e B = Some s"
    and "length (timestamps s) \<le> length (closes s)"
  shows "(\<exists>r \<in> set xs. analysis.symbol r = B) \<and>
         (\<forall>r \<in> set xs. analysis.symbol r = B \<longrightarrow>
            map_of (analysis.comparisons r) (''vs_'' @ B) =
              Some \<lparr> comparison.ratio = Fin 1, status = ''weaker'' \<rparr>)"
proof -
  let ?d = "request.date req"
  let ?f = "analysisResult (getStockDataAPI e ''QQQ'' ?d) (getStockDataAPI e ''SPY'' ?d)
              (getStockDataAPI e ''IWM'' ?d)"
  define b where "b = stockData e B ?d s"
  have fb: "getStockDataAPI e B ?d = Some b"
    by (simp add: getStockDataAPI_def assms(3) b_def)
  obtain p where p: "stock.priceChange b = Fin p"
    unfolding b_def using priceChange_finite [OF assms(4)] by blast
  obtain syms where xs: "xs = map ?f (validResults e ?d (uniq (benchmarks @ syms)))"
    using analyze_Success [OF assms(1)] unfolding analysisResults_eq by blast
  have "b \<in> set (validResults e ?d (uniq (benchmarks @ syms)))"
    unfolding validResults_member using fb assms(2) by (auto simp: set_uniq)
  then have "?f b \<in> set xs" unfolding xs by simp
  moreover have "analysis.symbol (?f b) = B"
    using symbol_getStockDataAPI [OF fb] by (simp add: analysisResult_def Let_def)
  ultimately have ex: "\<exists>r \<in> set xs. analysis.symbol r = B" by blast
  have all: "map_of (analysis.comparisons r) (''vs_'' @ B) =
      Some \<lparr> comparison.ratio = Fin 1, status = ''weaker'' \<rparr>"
    if rin: "r \<in> set xs" and rsym: "analysis.symbol r = B" for r
  proof -
    obtain st where st: "getStockDataAPI e (analysis.symbol r) ?d = Some st" and r: "r = ?f st"
      using data_element [OF assms(1) rin] by blast
    have "st = b" using st fb rsym by simp
    then show ?thesis
      unfolding r using comparisons_lookup [OF assms(2), of e ?d b]
      by (simp add: fb compareTo_self [OF p] comparison_of_one)
  qed
  show ?thesis using ex all by blast
qed

theorem benchmark_self_comparison_witness:
  "response (analyze demo_env True demo_request) = Success demo_data ''latest'' \<and>
   ''QQQ'' \<in> set benchmarks \<and>
   http demo_env ''QQQ'' = Some two_day_series \<and>
   length (timestamps two_day_series) \<le> length (closes two_day_series) \<and>
   hd demo_data \<in> set demo_data \<and> analysis.symbol (hd demo_data) = ''QQQ'' \<and>
   map_of (analysis.comparisons (hd demo_data)) ''vs_QQQ'' =
     Some \<lparr> comparison.ratio = Fin 1, status = ''weaker'' \<rparr>"
  using benchmark_self_comparison [of demo_env True demo_request demo_data "''latest''"
      "''QQQ''" two_day_series]
  by (simp add: demo_analyze benchmarks_def)
    (simp add: demo_env_def two_day_series_def demo_data_def)

text \<open>
  C9. Every element of a successful reply comes from the fetched result of its symbol:
  its \<open>vlRatio\<close> is that result's ratio rounded to 3 decimals, its \<open>avgVolume\<close> that
  result's mean rounded to an integer, and each comparison has the comparison value
  rounded to 3 decimals as its ratio, and a status decided by the value before rounding.
\<close>

theorem emitted_values_rounded:
  assumes "response (analyze e l req) = Success xs rd" and "r \<in> set xs"
  shows "\<exists>st. getStockDataAPI e (analysis.symbol r) (request.date req) = Some st \<and>
           rounded_to 3 (stock.vlRatio st) (analysis.vlRatio r) \<and>
           rounded_to 0 (stock.avgVolume st) (analysis.avgVolume r) \<and>
           (\<forall>B \<in> set benchmarks.
              \<exists>c. map_of (analysis.comparisons r) (''vs_'' @ B) = Some c \<and>
                rounded_to 3 (compareTo (getStockDataAPI e B (request.date req)) st)
                  (comparison.ratio c) \<and>
                (comparison.status c = ''stronger'' \<longleftrightarrow>
                   js_gt (compareTo (getStockDataAPI e B (request.date req)) st) (Fin 1)))"
proof -
  let ?d = "request.date req"
  let ?f = "analysisResult (getStockDataAPI e ''QQQ'' ?d) (getStockDataAPI e ''SPY'' ?d)
              (getStockDataAPI e ''IWM'' ?d)"
  obtain st where st: "getStockDataAPI e (analysis.symbol r) ?d = Some st" and r: "r = ?f st"
    using data_element [OF assms] by blast
  have vl: "rounded_to 3 (stock.vlRatio st) (analysis.vlRatio r)"
    unfolding r by (simp add: analysisResult_def Let_def rounded_to_toFixed)
  have av: "rounded_to 0 (stock.avgVolume st) (analysis.avgVolume r)"
    unfolding r by (simp add: analysisResult_def Let_def rounded_to_Math_round)
  have cmp: "\<exists>c. map_of (analysis.comparisons r) (''vs_'' @ B) = Some c \<and>
                rounded_to 3 (compareTo (getStockDataAPI e B ?d) st) (comparison.ratio c) \<and>
                (comparison.status c = ''stronger'' \<longleftrightarrow>
                   js_gt (compareTo (getStockDataAPI e B ?d) st) (Fin 1))"
    if "B \<in> set benchmarks" for B
    unfolding r comparisons_lookup [OF that]
    by (simp add: comparison_of_def rounded_to_toFixed)
  show ?thesis using st vl av cmp by blast
qed

theorem emitted_values_rounded_witness:
  "response (analyze demo_env True demo_request) = Success demo_data ''latest'' \<and>
   demo_data ! 2 \<in> set demo_data \<and>
   getStockDataAPI demo_env ''AAPL'' None =
     Some \<lparr> stock.symbol = ''AAPL'', currentVolume = Fin 2001, avgVolume = Fin (3001 / 2),
       vlRatio = Fin (4002 / 3001), price = Num 37, priceChange = Fin (2333 / 100),
       timestamp = Fin 1700086400000, date = ''Wed Nov 15 2023'' \<rparr> \<and>
   analysis.vlRatio (demo_data ! 2) = Fin (1334 / 1000) \<and>
   analysis.avgVolume (demo_data ! 2) = Fin 1501"
  using emitted_values_rounded [of demo_env True demo_request demo_data "''latest''"
      "demo_data ! 2"]
  by (simp add: demo_analyze demo_fetches rising_stock) (simp add: demo_data_def)

section \<open>Sorting with a comparator\<close>

lemma mset_insert_sorted: "mset (insert_sorted c x ys) = add_mset x (mset ys)"
  by (induction ys) auto

lemma mset_js_sort: "mset (js_sort c xs) = mset xs"
  by (induction xs) (auto simp: js_sort_def mset_insert_sorted)

lemma set_insert_sorted: "set (insert_sorted c x ys) = insert x (set ys)"
  by (induction ys) auto

lemma set_js_sort: "set (js_sort c xs) = set xs"
  by (metis mset_js_sort set_mset_mset)

lemma js_sort_Cons: "js_sort c (x # xs) = insert_sorted c x (js_sort c xs)"
  by (simp add: js_sort_def)

lemma js_sort_Nil: "js_sort c [] = []"
  by (simp add: js_sort_def)

lemma sorted_insert_sorted:
  assumes total: "\<And>a b. c a b \<le> 0 \<or> c b a \<le> 0"
    and trans: "\<And>a b d. c a b \<le> 0 \<Longrightarrow> c b d \<le> 0 \<Longrightarrow> c a d \<le> 0"
    and "sorted_wrt (\<lambda>a b. c a b \<le> 0) ys"
  shows "sorted_wrt (\<lambda>a b. c a b \<le> 0) (insert_sorted c x ys)"
  using assms(3)
proof (induction ys)
  case Nil
  then show ?case by simp
next
  case (Cons y ys)
  show ?case
  proof (cases "c x y \<le> 0")
    case True
    have "c x z \<le> 0" if "z \<in> set ys" for z
    proof -
      have "c y z \<le> 0" using Cons.prems that by simp
      with True show ?thesis by (rule trans)
    qed
    then show ?thesis using True Cons.prems by simp
  next
    case False
    then have "c y x \<le> 0" using total by blast
    then show ?thesis
      using False Cons by (auto simp: set_insert_sorted)
  qed
qed

lemma sorted_js_sort:
  assumes "\<And>a b. c a b \<le> 0 \<or> c b a \<le> 0"
    and "\<And>a b d. c a b \<le> 0 \<Longrightarrow> c b d \<le> 0 \<Longrightarrow> c a d \<le> 0"
  shows "sorted_wrt (\<lambda>a b. c a b \<le> 0) (js_sort c xs)"
proof (induction xs)
  case Nil
  then show ?case by (simp add: js_sort_Nil)
next
  case (Cons x xs)
  show ?case
    unfolding js_sort_Cons by (rule sorted_insert_sorted [OF assms(1) assms(2) Cons.IH])
qed

lemma insert_sorted_front:
  assumes "\<forall>b \<in> set bs. c x b \<le> 0"
  shows "insert_sorted c x bs = x # bs"
  using assms by (cases bs) auto

lemma insert_sorted_skip:
  assumes "\<forall>a \<in> set as. 0 < c x a"
  shows "insert_sorted c x (as @ bs) = as @ insert_sorted c x bs"
  using assms by (induction as) auto

lemma js_sort_sorted:
  assumes "sorted_wrt (\<lambda>a b. c a b \<le> 0) xs"
  shows "js_sort c xs = xs"
  using assms
proof (induction xs)
  case Nil
  then show ?case by (simp add: js_sort_Nil)
next
  case (Cons x xs)
  then show ?case
    unfolding js_sort_Cons by (simp add: insert_sorted_front)
qed

text \<open>Two sorted lists with the same elements are equal when no two elements tie.\<close>

lemma sorted_wrt_unique:
  assumes "sorted_wrt R ys" and "sorted_wrt R zs" and "mset ys = mset zs"
    and "\<And>a b. a \<in> set ys \<Longrightarrow> b \<in> set ys \<Longrightarrow> R a b \<Longrightarrow> R b a \<Longrightarrow> a = b"
  shows "ys = zs"
  using assms
proof (induction ys arbitrary: zs)
  case Nil
  then show ?case by simp
next
  case (Cons y ys)
  then obtain z zs' where zs: "zs = z # zs'"
    by (cases zs) auto
  have sets: "set (y # ys) = set (z # zs')"
    using Cons.prems(3) zs by (metis set_mset_mset)
  have "y = z"
  proof (rule ccontr)
    assume ne: "y \<noteq> z"
    then have "y \<in> set zs'" and "z \<in> set ys" using sets by auto
    then have "R z y" and "R y z"
      using Cons.prems(1,2) zs by auto
    then show False
      using Cons.prems(4) [of y z] ne \<open>z \<in> set ys\<close> by auto
  qed
  moreover have "ys = zs'"
  proof (rule Cons.IH)
    show "sorted_wrt R ys" using Cons.prems(1) by simp
    show "sorted_wrt R zs'" using Cons.prems(2) zs by simp
    show "mset ys = mset zs'" using Cons.prems(3) zs \<open>y = z\<close> by simp
    show "\<And>a b. a \<in> set ys \<Longrightarrow> b \<in> set ys \<Longrightarrow> R a b \<Longrightarrow> R b a \<Longrightarrow> a = b"
      using Cons.prems(4) by auto
  qed
  ultimately show ?case using zs by simp
qed

lemma js_sort_reversed:
  assumes sign: "\<And>a b. (c a b < 0) = (0 < c b a)"
    and trans: "\<And>a b d. c a b \<le> 0 \<Longrightarrow> c b d \<le> 0 \<Longrightarrow> c a d \<le> 0"
    and distinct: "\<And>a b. a \<in> set xs \<Longrightarrow> b \<in> set xs \<Longrightarrow> a \<noteq> b \<Longrightarrow> c a b \<noteq> 0"
  shows "js_sort (\<lambda>a b. c b a) xs = rev (js_sort c xs)"
proof (rule sorted_wrt_unique [where R = "\<lambda>a b. c b a \<le> 0"])
  have total: "c a b \<le> 0 \<or> c b a \<le> 0" for a b
    using sign [of b a] by linarith
  have trans': "c d a \<le> 0" if "c b a \<le> 0" and "c d b \<le> 0" for a b d
    using trans [OF that(2) that(1)] .
  show "sorted_wrt (\<lambda>a b. c b a \<le> 0) (js_sort (\<lambda>a b. c b a) xs)"
    by (rule sorted_js_sort [of "\<lambda>a b. c b a", OF total trans'])
  have "sorted_wrt (\<lambda>a b. c a b \<le> 0) (js_sort c xs)"
    by (rule sorted_js_sort [of c, OF total trans])
  then show "sorted_wrt (\<lambda>a b. c b a \<le> 0) (rev (js_sort c xs))"
    by (simp add: sorted_wrt_rev)
  show "mset (js_sort (\<lambda>a b. c b a) xs) = mset (rev (js_sort c xs))"
    by (simp add: mset_js_sort)
  fix a b
  assume "a \<in> set (js_sort (\<lambda>a b. c b a) xs)" and "b \<in> set (js_sort (\<lambda>a b. c b a) xs)"
    and "c b a \<le> 0" and "c a b \<le> 0"
  then have "a \<in> set xs" "b \<in> set xs" by (simp_all add: set_js_sort)
  moreover have "c a b = 0"
    using sign [of a b] sign [of b a] \<open>c b a \<le> 0\<close> \<open>c a b \<le> 0\<close> by linarith
  ultimately show "a = b" using distinct by blast
qed

section \<open>The comparator of the table\<close>

lemma compare_rows_symbol:
  "compare_rows lc ''symbol'' dir a b =
     (if dir = ''asc'' then real_of_int (lc (row.symbol a) (row.symbol b))
      else real_of_int (lc (row.symbol b) (row.symbol a)))"
  by (simp add: compare_rows_def column_value_def)

lemma compare_rows_number:
  assumes "column \<noteq> ''symbol''"
  shows "compare_rows lc column dir a b =
     (if dir = ''asc'' then column_number column a - column_number column b
      else column_number column b - column_number column a)"
  using assms
  by (simp add: compare_rows_def column_value_def column_number_def numeric_columns_def
      number_of_def or_zero_def split: option.splits)

lemma compare_rows_desc:
  assumes "dir \<noteq> ''asc''"
  shows "compare_rows lc column dir a b = compare_rows lc column ''asc'' b a"
proof (cases "column = ''symbol''")
  case True
  then show ?thesis using assms by (simp add: compare_rows_symbol)
next
  case False
  then show ?thesis using assms by (simp add: compare_rows_number)
qed

lemma compare_rows_sign:
  assumes "column = ''symbol'' \<Longrightarrow> comparator_consistent lc"
  shows "(compare_rows lc column dir a b < 0) = (0 < compare_rows lc column dir b a)"
proof (cases "column = ''symbol''")
  case True
  have "(lc x y < 0) = (0 < lc y x)" for x y
    using assms [OF True] by (simp add: comparator_consistent_def)
  then show ?thesis using True by (simp add: compare_rows_symbol)
next
  case False
  then show ?thesis by (auto simp: compare_rows_number)
qed

lemma compare_rows_trans:
  assumes "column = ''symbol'' \<Longrightarrow> comparator_consistent lc"
    and "compare_rows lc column dir a b \<le> 0" and "compare_rows lc column dir b d \<le> 0"
  shows "compare_rows lc column dir a d \<le> 0"
proof (cases "column = ''symbol''")
  case True
  have t: "lc x z \<le> 0" if "lc x y \<le> 0" and "lc y z \<le> 0" for x y z
    using assms(1) [OF True] that unfolding comparator_consistent_def by blast
  show ?thesis
  proof (cases "dir = ''asc''")
    case asc: True
    then show ?thesis
      using assms(2,3) True t [of "row.symbol a" "row.symbol b" "row.symbol d"]
      by (simp add: compare_rows_symbol)
  next
    case desc: False
    then show ?thesis
      using assms(2,3) True t [of "row.symbol d" "row.symbol b" "row.symbol a"]
      by (simp add: compare_rows_symbol)
  qed
next
  case False
  then show ?thesis using assms(2,3) by (auto simp: compare_rows_number split: if_splits)
qed

lemma compare_rows_total:
  assumes "column = ''symbol'' \<Longrightarrow> comparator_consistent lc"
  shows "compare_rows lc column dir a b \<le> 0 \<or> compare_rows lc column dir b a \<le> 0"
proof -
  have "(compare_rows lc column dir b a < 0) = (0 < compare_rows lc column dir a b)"
  proof (rule compare_rows_sign)
    show "column = ''symbol'' \<Longrightarrow> comparator_consistent lc" by (rule assms)
  qed
  then show ?thesis by linarith
qed

text \<open>Sorted by the comparator of the code is sorted by the column of the table.\<close>

lemma sorted_by_column_compare_rows:
  assumes "column = ''symbol'' \<Longrightarrow> comparator_consistent lc"
    and "sorted_wrt (\<lambda>a b. compare_rows lc column dir a b \<le> 0) rows"
  shows "sorted_by_column lc column dir rows"
proof (cases "column = ''symbol''")
  case True
  have sign: "(lc x y < 0) = (0 < lc y x)" for x y
    using assms(1) [OF True] by (simp add: comparator_consistent_def)
  have "sorted_wrt
          (\<lambda>a b. if dir = ''asc'' then lc (row.symbol a) (row.symbol b) \<le> 0
                 else 0 \<le> lc (row.symbol a) (row.symbol b)) rows"
  proof (rule sorted_wrt_mono_rel [OF _ assms(2)])
    fix a b
    assume "compare_rows lc column dir a b \<le> 0"
    then show "if dir = ''asc'' then lc (row.symbol a) (row.symbol b) \<le> 0
               else 0 \<le> lc (row.symbol a) (row.symbol b)"
      using sign [of "row.symbol a" "row.symbol b"] True
      by (auto simp: compare_rows_symbol split: if_splits)
  qed
  then show ?thesis using True by (simp add: sorted_by_column_def)
next
  case False
  show ?thesis
  proof (cases "map_of numeric_columns column")
    case None
    then show ?thesis using False by (simp add: sorted_by_column_def)
  next
    case (Some field)
    have "sorted_wrt
            (\<lambda>a b. if dir = ''asc'' then number_of (field a) \<le> number_of (field b)
                   else number_of (field b) \<le> number_of (field a)) rows"
    proof (rule sorted_wrt_mono_rel [OF _ assms(2)])
      fix a b
      assume "compare_rows lc column dir a b \<le> 0"
      then show "if dir = ''asc'' then number_of (field a) \<le> number_of (field b)
                 else number_of (field b) \<le> number_of (field a)"
        using False Some by (auto simp: compare_rows_number column_number_def split: if_splits)
    qed
    then show ?thesis using False Some by (simp add: sorted_by_column_def)
  qed
qed

text \<open>Rows with pairwise distinct keys never compare equal.\<close>

lemma keys_distinct_compare_rows:
  assumes "keys_distinct lc column rows"
    and "a \<in> set rows" and "b \<in> set rows" and "a \<noteq> b"
  shows "compare_rows lc column ''asc'' a b \<noteq> 0"
proof (cases "column = ''symbol''")
  case True
  then have d: "distinct (map row.symbol rows)"
    and l: "\<And>x y. x \<in> set (map row.symbol rows) \<Longrightarrow> y \<in> set (map row.symbol rows) \<Longrightarrow>
              x \<noteq> y \<Longrightarrow> lc x y \<noteq> 0"
    using assms(1) by (auto simp: keys_distinct_def)
  have "inj_on row.symbol (set rows)" using d by (simp add: distinct_map)
  then have "row.symbol a \<noteq> row.symbol b"
    using assms(2,3,4) by (auto dest: inj_onD)
  then have "lc (row.symbol a) (row.symbol b) \<noteq> 0"
    using l [of "row.symbol a" "row.symbol b"] assms(2,3) by simp
  then show ?thesis using True by (simp add: compare_rows_symbol)
next
  case False
  show ?thesis
  proof (cases "map_of numeric_columns column")
    case None
    then have "length rows \<le> 1"
      using assms(1) False by (simp add: keys_distinct_def)
    then have "a = b"
      using assms(2,3) by (cases rows) auto
    then show ?thesis using assms(4) by simp
  next
    case (Some field)
    then have "distinct (map (\<lambda>r. number_of (field r)) rows)"
      using assms(1) False by (simp add: keys_distinct_def)
    then have "inj_on (\<lambda>r. number_of (field r)) (set rows)" by (simp add: distinct_map)
    then have "number_of (field a) \<noteq> number_of (field b)"
      using assms(2,3,4) by (auto dest: inj_onD)
    then show ?thesis
      using False Some by (simp add: compare_rows_number column_number_def)
  qed
qed

section \<open>The benchmark rows\<close>

lemma indexOf_benchmarks:
  "indexOf benchmarks ''QQQ'' = 0" "indexOf benchmarks ''SPY'' = 1" "indexOf benchmarks ''IWM'' = 2"
  by (simp_all add: indexOf_def benchmarks_def)

lemma sorted_benchmarks:
  "js_sort (\<lambda>a b. real_of_int (indexOf benchmarks (row.symbol a) - indexOf benchmarks (row.symbol b)))
     (filter (\<lambda>st. row.symbol st \<in> set benchmarks) data) = benchmark_rows data"
proof (induction data)
  case Nil
  then show ?case by (simp add: js_sort_Nil benchmark_rows_def)
next
  case (Cons x xs)
  let ?c = "\<lambda>a b. real_of_int (indexOf benchmarks (row.symbol a) - indexOf benchmarks (row.symbol b))"
  let ?q = "filter (\<lambda>r. row.symbol r = ''QQQ'') xs"
  let ?s = "filter (\<lambda>r. row.symbol r = ''SPY'') xs"
  let ?i = "filter (\<lambda>r. row.symbol r = ''IWM'') xs"
  have IH: "js_sort ?c (filter (\<lambda>st. row.symbol st \<in> set benchmarks) xs) = ?q @ ?s @ ?i"
    using Cons.IH by (simp add: benchmark_rows_def)
  consider (q) "row.symbol x = ''QQQ''" | (s) "row.symbol x = ''SPY''" | (i) "row.symbol x = ''IWM''"
    | (other) "row.symbol x \<notin> set benchmarks"
    by (auto simp: benchmarks_def)
  then show ?case
  proof cases
    case q
    have f: "filter (\<lambda>st. row.symbol st \<in> set benchmarks) (x # xs) =
        x # filter (\<lambda>st. row.symbol st \<in> set benchmarks) xs"
      by (simp add: q benchmarks_def)
    have b: "benchmark_rows (x # xs) = x # ?q @ ?s @ ?i"
      by (simp add: q benchmark_rows_def)
    have "insert_sorted ?c x (?q @ ?s @ ?i) = x # ?q @ ?s @ ?i"
      by (rule insert_sorted_front) (auto simp: q indexOf_benchmarks)
    then show ?thesis
      unfolding f js_sort_Cons IH b .
  next
    case s
    have f: "filter (\<lambda>st. row.symbol st \<in> set benchmarks) (x # xs) =
        x # filter (\<lambda>st. row.symbol st \<in> set benchmarks) xs"
      by (simp add: s benchmarks_def)
    have b: "benchmark_rows (x # xs) = ?q @ x # ?s @ ?i"
      by (simp add: s benchmark_rows_def)
    have "insert_sorted ?c x (?q @ (?s @ ?i)) = ?q @ insert_sorted ?c x (?s @ ?i)"
      by (rule insert_sorted_skip) (auto simp: s indexOf_benchmarks)
    moreover have "insert_sorted ?c x (?s @ ?i) = x # ?s @ ?i"
      by (rule insert_sorted_front) (auto simp: s indexOf_benchmarks)
    ultimately have "insert_sorted ?c x (?q @ ?s @ ?i) = ?q @ x # ?s @ ?i"
      by simp
    then show ?thesis
      unfolding f js_sort_Cons IH b .
  next
    case i
    have f: "filter (\<lambda>st. row.symbol st \<in> set benchmarks) (x # xs) =
        x # filter (\<lambda>st. row.symbol st \<in> set benchmarks) xs"
      by (simp add: i benchmarks_def)
    have b: "benchmark_rows (x # xs) = ?q @ ?s @ x # ?i"
      by (simp add: i benchmark_rows_def)
    have "insert_sorted ?c x ((?q @ ?s) @ ?i) = (?q @ ?s) @ insert_sorted ?c x ?i"
      by (rule insert_sorted_skip) (auto simp: i indexOf_benchmarks)
    moreover have "insert_sorted ?c x ?i = x # ?i"
      by (rule insert_sorted_front) (auto simp: i indexOf_benchmarks)
    ultimately have "insert_sorted ?c x (?q @ ?s @ ?i) = ?q @ ?s @ x # ?i"
      by simp
    then show ?thesis
      unfolding f js_sort_Cons IH b .
  next
    case other
    then have ne: "row.symbol x \<noteq> ''QQQ''" "row.symbol x \<noteq> ''SPY''" "row.symbol x \<noteq> ''IWM''"
      by (auto simp: benchmarks_def)
    have f: "filter (\<lambda>st. row.symbol st \<in> set benchmarks) (x # xs) =
        filter (\<lambda>st. row.symbol st \<in> set benchmarks) xs"
      using other by simp
    have b: "benchmark_rows (x # xs) = ?q @ ?s @ ?i"
      using ne by (simp add: benchmark_rows_def)
    show ?thesis
      unfolding f IH b ..
  qed
qed

lemma sortData_eq:
  "sortData lc data column dir =
     benchmark_rows data @
     js_sort (compare_rows lc column dir) (filter (\<lambda>st. row.symbol st \<notin> set benchmarks) data)"
  unfolding sortData_def Let_def sorted_benchmarks ..

lemma benchmark_rows_none:
  assumes "\<forall>r \<in> set rows. row.symbol r \<notin> set benchmarks"
  shows "benchmark_rows rows = []"
  using assms by (auto simp: benchmark_rows_def benchmarks_def filter_empty_conv)

lemma sortData_regular:
  assumes "\<forall>r \<in> set rows. row.symbol r \<notin> set benchmarks"
  shows "sortData lc rows column dir = js_sort (compare_rows lc column dir) rows"
proof -
  have "filter (\<lambda>st. row.symbol st \<notin> set benchmarks) rows = rows"
    using assms by (simp add: filter_id_conv)
  then show ?thesis
    by (simp add: sortData_eq benchmark_rows_none [OF assms])
qed

section \<open>The example rows, sorted\<close>

lemma code_unit_compare_consistent: "comparator_consistent code_unit_compare"
  by (auto simp: comparator_consistent_def code_unit_compare_def)

lemma mk_row_fields:
  "row.symbol (mk_row name change vl) = name"
  "row.priceChange (mk_row name change vl) = Some change"
  "row.vlRatio (mk_row name change vl) = Some vl"
  by (simp_all add: mk_row_def)

lemma mk_row_eq: "mk_row n c v = mk_row n' c' v' \<longleftrightarrow> n = n' \<and> c = c' \<and> v = v'"
  by (auto simp: mk_row_def)

lemma demo_sort_desc:
  "sortData code_unit_compare demo_rows ''priceChange'' ''desc'' =
     [mk_row ''QQQ'' 10 2, mk_row ''SPY'' 0 1, mk_row ''TSLA'' 5 0.5, mk_row ''MSFT'' 2 1.5,
      mk_row ''AAPL'' (- 1) 3]"
  by (simp add: sortData_def demo_rows_def Let_def benchmarks_def js_sort_def indexOf_def
      compare_rows_def column_value_def or_zero_def mk_row_fields mk_row_eq)

lemma demo_sort_symbol:
  "sortData code_unit_compare demo_rows ''symbol'' ''asc'' =
     [mk_row ''QQQ'' 10 2, mk_row ''SPY'' 0 1, mk_row ''AAPL'' (- 1) 3, mk_row ''MSFT'' 2 1.5,
      mk_row ''TSLA'' 5 0.5]"
  by (simp add: sortData_def demo_rows_def Let_def benchmarks_def js_sort_def indexOf_def
      compare_rows_def column_value_def or_zero_def mk_row_fields mk_row_eq
      code_unit_compare_def)

lemma demo_benchmark_rows: "benchmark_rows demo_rows = [mk_row ''QQQ'' 10 2, mk_row ''SPY'' 0 1]"
  by (simp add: benchmark_rows_def demo_rows_def mk_row_fields)

lemma regular_sort_vlRatio:
  "sortData code_unit_compare regular_rows ''vlRatio'' ''asc'' =
     [mk_row ''TSLA'' 5 0.5, mk_row ''MSFT'' 2 1.5, mk_row ''AAPL'' (- 1) 3]"
  by (simp add: sortData_def regular_rows_def Let_def benchmarks_def js_sort_def indexOf_def
      compare_rows_def column_value_def or_zero_def mk_row_fields mk_row_eq)

lemma regular_sort_symbol:
  "sortData code_unit_compare regular_rows ''symbol'' ''asc'' =
     [mk_row ''AAPL'' (- 1) 3, mk_row ''MSFT'' 2 1.5, mk_row ''TSLA'' 5 0.5]"
  by (simp add: sortData_def regular_rows_def Let_def benchmarks_def js_sort_def indexOf_def
      compare_rows_def column_value_def or_zero_def mk_row_fields mk_row_eq
      code_unit_compare_def)

lemma regular_keys_distinct:
  "keys_distinct code_unit_compare ''vlRatio'' regular_rows"
  "keys_distinct code_unit_compare ''symbol'' regular_rows"
  by (simp_all add: keys_distinct_def numeric_columns_def number_of_def regular_rows_def
      mk_row_fields code_unit_compare_def)

lemma regular_no_benchmark: "\<forall>r \<in> set regular_rows. row.symbol r \<notin> set benchmarks"
  by (simp add: regular_rows_def benchmarks_def mk_row_fields)

lemma null_and_zero_fields:
  "map row.symbol null_and_zero_rows = [''NVDA'', ''AMD'']"
  "map row.priceChange null_and_zero_rows = [None, Some 0]"
  by (simp_all add: null_and_zero_rows_def mk_row_def)

lemma null_and_zero_sorted:
  "sortData code_unit_compare null_and_zero_rows ''priceChange'' dir = null_and_zero_rows"
proof -
  have nb: "\<forall>r \<in> set null_and_zero_rows. row.symbol r \<notin> set benchmarks"
    by (simp add: null_and_zero_rows_def benchmarks_def mk_row_def)
  have "sorted_wrt (\<lambda>a b. compare_rows code_unit_compare ''priceChange'' dir a b \<le> 0)
          null_and_zero_rows"
    by (simp add: null_and_zero_rows_def compare_rows_def column_value_def or_zero_def
        mk_row_def)
  then show ?thesis
    unfolding sortData_regular [OF nb] by (rule js_sort_sorted)
qed

section \<open>Claims on the display sort\<close>

text \<open>
  C4. For every result set, column and direction (with a consistent collation where the
  column is the symbol), the display sort returns the benchmark rows in the fixed order QQQ, SPY, IWM, which depends on the
  rows alone, followed by the other rows, rearranged so that they are sorted by the
  chosen column of the table in the chosen direction; for a name that is no column of the
  table the other rows keep their order.
\<close>

theorem sortData_benchmarks_first:
  assumes "column = ''symbol'' \<Longrightarrow> comparator_consistent localeCompare"
  shows "\<exists>others.
           sortData localeCompare data column direction = benchmark_rows data @ others \<and>
           mset others = mset (filter (\<lambda>r. row.symbol r \<notin> set benchmarks) data) \<and>
           sorted_by_column localeCompare column direction others \<and>
           (column \<noteq> ''symbol'' \<and> map_of numeric_columns column = None \<longrightarrow>
              others = filter (\<lambda>r. row.symbol r \<notin> set benchmarks) data)"
proof -
  let ?c = "compare_rows localeCompare column direction"
  let ?regular = "filter (\<lambda>st. row.symbol st \<notin> set benchmarks) data"
  let ?others = "js_sort ?c ?regular"
  have total: "?c a b \<le> 0 \<or> ?c b a \<le> 0" for a b
  proof (rule compare_rows_total)
    show "column = ''symbol'' \<Longrightarrow> comparator_consistent localeCompare" by (rule assms)
  qed
  have trans: "?c a d \<le> 0" if h1: "?c a b \<le> 0" and h2: "?c b d \<le> 0" for a b d
  proof (rule compare_rows_trans [OF _ h1 h2])
    show "column = ''symbol'' \<Longrightarrow> comparator_consistent localeCompare" by (rule assms)
  qed
  have by_c: "sorted_wrt (\<lambda>a b. ?c a b \<le> 0) ?others"
    by (rule sorted_js_sort [of ?c, OF total trans])
  have sorted: "sorted_by_column localeCompare column direction ?others"
  proof (rule sorted_by_column_compare_rows [OF _ by_c])
    show "column = ''symbol'' \<Longrightarrow> comparator_consistent localeCompare" by (rule assms)
  qed
  have kept: "?others = ?regular"
    if "column \<noteq> ''symbol''" and "map_of numeric_columns column = None"
  proof (rule js_sort_sorted)
    have "?c a b = 0" for a b
      using that by (simp add: compare_rows_number column_number_def)
    then show "sorted_wrt (\<lambda>a b. ?c a b \<le> 0) ?regular"
      by (simp add: sorted_wrt_iff_nth_less)
  qed
  show ?thesis
    using sortData_eq [of localeCompare data column direction] sorted kept
    by (auto simp: mset_js_sort)
qed

theorem sortData_benchmarks_first_witness:
  "comparator_consistent code_unit_compare \<and>
   benchmark_rows demo_rows = [mk_row ''QQQ'' 10 2, mk_row ''SPY'' 0 1] \<and>
   sortData code_unit_compare demo_rows ''priceChange'' ''desc'' =
     [mk_row ''QQQ'' 10 2, mk_row ''SPY'' 0 1, mk_row ''TSLA'' 5 0.5, mk_row ''MSFT'' 2 1.5,
      mk_row ''AAPL'' (- 1) 3] \<and>
   sortData code_unit_compare demo_rows ''symbol'' ''asc'' =
     [mk_row ''QQQ'' 10 2, mk_row ''SPY'' 0 1, mk_row ''AAPL'' (- 1) 3, mk_row ''MSFT'' 2 1.5,
      mk_row ''TSLA'' 5 0.5]"
  using sortData_benchmarks_first [where localeCompare = code_unit_compare
      and data = demo_rows and column = "''priceChange''" and direction = "''desc''"]
    sortData_benchmarks_first [where localeCompare = code_unit_compare
      and data = demo_rows and column = "''symbol''" and direction = "''asc''"]
    code_unit_compare_consistent
  by (simp add: demo_sort_desc demo_sort_symbol demo_benchmark_rows)

text \<open>
  C8 as stated fails: a null price change and a price change of 0 are distinct keys of two
  rows that are not benchmarks, the comparator reads both as 0, and the rows come out in
  the same order ascending and descending.
\<close>

theorem null_key_not_reversed_counterexample:
  "comparator_consistent code_unit_compare \<and>
   map row.symbol null_and_zero_rows = [''NVDA'', ''AMD''] \<and>
   map row.priceChange null_and_zero_rows = [None, Some 0] \<and>
   claimed_keys_distinct ''priceChange'' null_and_zero_rows \<and>
   sortData code_unit_compare null_and_zero_rows ''priceChange'' ''asc'' = null_and_zero_rows \<and>
   sortData code_unit_compare null_and_zero_rows ''priceChange'' ''desc'' = null_and_zero_rows \<and>
   sortData code_unit_compare null_and_zero_rows ''priceChange'' ''desc'' \<noteq>
     rev (sortData code_unit_compare null_and_zero_rows ''priceChange'' ''asc'')"
proof -
  have "claimed_keys_distinct ''priceChange'' null_and_zero_rows"
    by (simp add: claimed_keys_distinct_def numeric_columns_def null_and_zero_fields)
  moreover have "null_and_zero_rows \<noteq> rev null_and_zero_rows"
    by (simp add: null_and_zero_rows_def mk_row_def)
  ultimately show ?thesis
    by (simp add: code_unit_compare_consistent null_and_zero_fields null_and_zero_sorted)
qed

text \<open>
  C8, as amended. For rows that are not benchmarks and whose keys in the chosen column are
  pairwise distinct as the sort reads them (a null number counting as 0, the symbols
  being ones a consistent collation does not rank equal), sorting them descending gives
  the reverse of sorting them ascending, whether the descending sort starts from the rows
  as given or from the ascending result.
\<close>

theorem sort_descending_reverses_ascending:
  assumes "column = ''symbol'' \<Longrightarrow> comparator_consistent localeCompare"
    and "\<forall>r \<in> set rows. row.symbol r \<notin> set benchmarks"
    and "keys_distinct localeCompare column rows"
  shows "sortData localeCompare rows column ''desc'' =
           rev (sortData localeCompare rows column ''asc'') \<and>
         sortData localeCompare (sortData localeCompare rows column ''asc'') column ''desc'' =
           rev (sortData localeCompare rows column ''asc'')"
proof -
  let ?c = "compare_rows localeCompare column ''asc''"
  let ?S = "js_sort ?c rows"
  have desc: "compare_rows localeCompare column ''desc'' = (\<lambda>a b. ?c b a)"
    by (intro ext) (simp add: compare_rows_desc)
  have sign: "(?c a b < 0) = (0 < ?c b a)" for a b
  proof (rule compare_rows_sign)
    show "column = ''symbol'' \<Longrightarrow> comparator_consistent localeCompare" by (rule assms(1))
  qed
  have total: "?c a b \<le> 0 \<or> ?c b a \<le> 0" for a b
    using sign [of b a] by linarith
  have trans: "?c a d \<le> 0" if h1: "?c a b \<le> 0" and h2: "?c b d \<le> 0" for a b d
  proof (rule compare_rows_trans [OF _ h1 h2])
    show "column = ''symbol'' \<Longrightarrow> comparator_consistent localeCompare" by (rule assms(1))
  qed
  have rev: "js_sort (\<lambda>a b. ?c b a) xs = rev (js_sort ?c xs)" if "set xs = set rows" for xs
  proof (rule js_sort_reversed)
    show "(?c a b < 0) = (0 < ?c b a)" for a b
      by (rule sign)
    show "?c a b \<le> 0 \<Longrightarrow> ?c b d \<le> 0 \<Longrightarrow> ?c a d \<le> 0" for a b d
      by (rule trans)
    show "a \<in> set xs \<Longrightarrow> b \<in> set xs \<Longrightarrow> a \<noteq> b \<Longrightarrow> ?c a b \<noteq> 0" for a b
      using keys_distinct_compare_rows [OF assms(3)] that by blast
  qed
  have S: "sortData localeCompare rows column ''asc'' = ?S"
    by (rule sortData_regular [OF assms(2)])
  have setS: "set ?S = set rows" by (rule set_js_sort)
  have first: "sortData localeCompare rows column ''desc'' = rev ?S"
    unfolding sortData_regular [OF assms(2)] desc by (rule rev) simp
  have "\<forall>r \<in> set ?S. row.symbol r \<notin> set benchmarks"
    using assms(2) setS by simp
  then have "sortData localeCompare ?S column ''desc'' = js_sort (\<lambda>a b. ?c b a) ?S"
    unfolding desc [symmetric] by (rule sortData_regular)
  also have "\<dots> = rev (js_sort ?c ?S)" by (rule rev [OF setS])
  also have "js_sort ?c ?S = ?S"
    by (rule js_sort_sorted) (rule sorted_js_sort [of ?c, OF total trans])
  finally show ?thesis using first S by simp
qed

theorem sort_descending_reverses_ascending_witness:
  "comparator_consistent code_unit_compare \<and>
   keys_distinct code_unit_compare ''vlRatio'' regular_rows \<and>
   keys_distinct code_unit_compare ''symbol'' regular_rows \<and>
   map row.symbol regular_rows = [''MSFT'', ''AAPL'', ''TSLA''] \<and>
   sortData code_unit_compare regular_rows ''vlRatio'' ''asc'' =
     [mk_row ''TSLA'' 5 0.5, mk_row ''MSFT'' 2 1.5, mk_row ''AAPL'' (- 1) 3] \<and>
   sortData code_unit_compare regular_rows ''vlRatio'' ''desc'' =
     [mk_row ''AAPL'' (- 1) 3, mk_row ''MSFT'' 2 1.5, mk_row ''TSLA'' 5 0.5] \<and>
   sortData code_unit_compare regular_rows ''symbol'' ''asc'' =
     [mk_row ''AAPL'' (- 1) 3, mk_row ''MSFT'' 2 1.5, mk_row ''TSLA'' 5 0.5] \<and>
   sortData code_unit_compare regular_rows ''symbol'' ''desc'' =
     [mk_row ''TSLA'' 5 0.5, mk_row ''MSFT'' 2 1.5, mk_row ''AAPL'' (- 1) 3]"
  using sort_descending_reverses_ascending [where localeCompare = code_unit_compare
      and rows = regular_rows and column = "''vlRatio''"]
    sort_descending_reverses_ascending [where localeCompare = code_unit_compare
      and rows = regular_rows and column = "''symbol''"]
    code_unit_compare_consistent regular_keys_distinct regular_no_benchmark
  by (simp add: regular_sort_vlRatio regular_sort_symbol)
    (simp add: regular_rows_def mk_row_fields)

end
